theory Spec2Isabelle
  imports Complex_Main "HOL-Library.AList"
begin

section \<open>JavaScript values\<close>

text \<open>
  The records handled by \<^verbatim>\<open>src/backend/app.js\<close> are the values that \<^verbatim>\<open>JSON.parse\<close>
  produces, plus \<^verbatim>\<open>undefined\<close> for a property that is absent. An object is an association
  list; a property is looked up with \<open>map_of\<close> and set with \<open>AList.update\<close>, which keeps the
  position of a key that is already present, as an assignment to an own property does.
  A string is the list of its bytes in UTF-8. The numbers that matter here are the array
  indices and the class codes, which are integers far below \<open>2^53\<close>.
\<close>

datatype jsval =
    JUndefined
  | JNull
  | JBool bool
  | JNum int
  | JStr string
  | JArr "jsval list"
  | JObj "(string \<times> jsval) list"

text \<open>\<^verbatim>\<open>a || b\<close> takes \<open>b\<close> when \<open>a\<close> is falsy.\<close>

fun truthy :: "jsval \<Rightarrow> bool" where
  "truthy JUndefined = False"
| "truthy JNull = False"
| "truthy (JBool b) = b"
| "truthy (JNum n) = (n \<noteq> 0)"
| "truthy (JStr s) = (s \<noteq> [])"
| "truthy (JArr xs) = True"
| "truthy (JObj kvs) = True"

definition js_or :: "jsval \<Rightarrow> jsval \<Rightarrow> jsval" where
  "js_or a b = (if truthy a then a else b)"

text \<open>\<^verbatim>\<open>a ?? b\<close> takes \<open>b\<close> when \<open>a\<close> is \<^verbatim>\<open>null\<close> or \<^verbatim>\<open>undefined\<close>.\<close>

fun nullish :: "jsval \<Rightarrow> bool" where
  "nullish JUndefined = True"
| "nullish JNull = True"
| "nullish v = False"

definition coalesce :: "jsval \<Rightarrow> jsval \<Rightarrow> jsval" where
  "coalesce a b = (if nullish a then b else a)"

text \<open>
  The value of \<^verbatim>\<open>item.key\<close> for an item that is neither \<^verbatim>\<open>null\<close> nor \<^verbatim>\<open>undefined\<close>. On
  \<^verbatim>\<open>null\<close> and \<^verbatim>\<open>undefined\<close> the read throws a \<^verbatim>\<open>TypeError\<close>: the functions below that read
  a property of a record (\<open>fillDataToTemplate\<close>, \<open>fill_item\<close>) return that error for such an
  item, and the copy loop reads a property of a cell value only behind its test of that
  value. The program reads the keys \<^verbatim>\<open>name\<close>, \<^verbatim>\<open>year\<close>, \<^verbatim>\<open>name2\<close>, \<^verbatim>\<open>school\<close>, \<^verbatim>\<open>address\<close>,
  \<^verbatim>\<open>address2\<close> and \<^verbatim>\<open>classcode\<close>; none of them is a property of a number, a boolean, a
  string or an array, nor of \<^verbatim>\<open>Object.prototype\<close>, so only an own property of an object
  gives a value.
\<close>

fun get_prop :: "jsval \<Rightarrow> string \<Rightarrow> jsval" where
  "get_prop (JObj kvs) k = (case map_of kvs k of Some v \<Rightarrow> v | None \<Rightarrow> JUndefined)"
| "get_prop v k = JUndefined"

subsection \<open>\<^verbatim>\<open>String(i)\<close> for an array index\<close>

definition digit_char :: "nat \<Rightarrow> char" where
  "digit_char d = char_of (48 + d)"

function String_nat :: "nat \<Rightarrow> string" where
  "String_nat n =
     (if n < 10 then [digit_char n] else String_nat (n div 10) @ [digit_char (n mod 10)])"
  by pat_completeness auto
termination
  by (relation "measure id") auto

declare String_nat.simps [simp del]

text \<open>
  The object spread \<^verbatim>\<open>{ ...item }\<close> copies the own enumerable properties of \<open>item\<close>: the
  properties of an object, the elements of an array under their indices, the characters of
  a string under their indices (one character per byte here, which is exact for ASCII
  strings), and nothing for any other value.
\<close>

fun spread :: "jsval \<Rightarrow> (string \<times> jsval) list" where
  "spread (JObj kvs) = kvs"
| "spread (JArr xs) = map (\<lambda>(i, x). (String_nat i, x)) (enumerate 0 xs)"
| "spread (JStr s) = map (\<lambda>(i, c). (String_nat i, JStr [c])) (enumerate 0 s)"
| "spread v = []"

section \<open>Errors and the environment\<close>

text \<open>
  Every \<^verbatim>\<open>throw new Error(...)\<close> of the source is one constructor, named as the
  specification names it: \<open>NotFound\<close> for \<^verbatim>\<open>Data file not found\<close> and
  \<^verbatim>\<open>Template not found\<close> (with the path), \<open>ShapeError\<close> for
  \<^verbatim>\<open>Data file does not contain an array\<close>, \<open>MissingSheet\<close> for a worksheet that the
  template lacks (with the sheet name). \<open>SyntaxError\<close> is what \<^verbatim>\<open>JSON.parse\<close> throws and
  \<open>TypeError\<close> what reading a property of \<^verbatim>\<open>null\<close> or \<^verbatim>\<open>undefined\<close> throws.
  \<open>MergeError\<close> is what the spreadsheet library's \<^verbatim>\<open>mergeCells\<close> throws, and \<open>NameExists\<close>
  what its \<^verbatim>\<open>addWorksheet\<close> throws (\<^verbatim>\<open>Worksheet name already exists\<close>, with the name).
\<close>

datatype error =
    NotFound string
  | ShapeError
  | MissingSheet string
  | SyntaxError
  | TypeError
  | MergeError
  | NameExists string

record env =
  dirname :: string
  cwd :: string

text \<open>
  \<^verbatim>\<open>path.join\<close> and \<^verbatim>\<open>path.resolve\<close> without their normalisation of \<^verbatim>\<open>.\<close>, \<^verbatim>\<open>..\<close> and
  repeated separators.
\<close>

definition path_join :: "string \<Rightarrow> string \<Rightarrow> string" where
  "path_join a b = a @ ''/'' @ b"

definition path_resolve :: "env \<Rightarrow> string \<Rightarrow> string" where
  "path_resolve e p = (case p of c # cs \<Rightarrow> if c = CHR ''/'' then p else path_join (cwd e) p
                       | [] \<Rightarrow> cwd e)"

section \<open>Record Loader\<close>

text \<open>
  A data file is absent, or present with a content that \<^verbatim>\<open>JSON.parse\<close> rejects, or present
  with the value it parses to.
\<close>

datatype json_file = Unparsable | Parsed jsval

text \<open>\<^verbatim>\<open>dataPath ? path.resolve(dataPath) : path.join(__dirname, 'data2.json')\<close>\<close>

definition data_file :: "env \<Rightarrow> string option \<Rightarrow> string" where
  "data_file e dataPath =
     (case dataPath of
        None \<Rightarrow> path_join (dirname e) ''data2.json''
      | Some p \<Rightarrow> if p \<noteq> [] then path_resolve e p else path_join (dirname e) ''data2.json'')"

text \<open>\<^verbatim>\<open>const classcode = 18 + Math.floor(idx / 20); return { ...item, classcode };\<close>\<close>

definition add_classcode :: "nat \<Rightarrow> jsval \<Rightarrow> jsval" where
  "add_classcode idx item =
     (let classcode = 18 + \<lfloor>real idx / 20\<rfloor>
      in JObj (AList.update ''classcode'' (JNum classcode) (spread item)))"

text \<open>\<^verbatim>\<open>Array.isArray\<close>\<close>

definition isArray :: "jsval \<Rightarrow> bool" where
  "isArray v = (case v of JArr xs \<Rightarrow> True | _ \<Rightarrow> False)"

definition readDataWithClasscodes ::
  "env \<Rightarrow> (string \<rightharpoonup> json_file) \<Rightarrow> string option \<Rightarrow> error + jsval list" where
  "readDataWithClasscodes e files dataPath =
     (let file = data_file e dataPath
      in case files file of
           None \<Rightarrow> Inl (NotFound file)
         | Some Unparsable \<Rightarrow> Inl SyntaxError
         | Some (Parsed arr) \<Rightarrow>
             (case arr of
                JArr xs \<Rightarrow> Inr (map (\<lambda>(idx, item). add_classcode idx item) (enumerate 0 xs))
              | _ \<Rightarrow> Inl ShapeError))"

definition classcode_of :: "jsval \<Rightarrow> int option" where
  "classcode_of v = (case get_prop v ''classcode'' of JNum n \<Rightarrow> Some n | _ \<Rightarrow> None)"

section \<open>Worksheets\<close>

text \<open>
  Modelled from the spec: the spreadsheet library (\<^verbatim>\<open>exceljs\<close>) is a dependency whose code is
  not among the sources, so the worksheet object that \<^verbatim>\<open>app.js\<close> works on is modelled after
  the specification's data model. A worksheet has a name, its stored cells (each with a value
  and a style) and the addresses of its merged ranges. A merged range has one master cell,
  its top-left cell, which is the sole holder of the value of the range: the cells of a
  merged range share the value of the master, so reading a member resolves through the
  master and assigning to the \<^verbatim>\<open>value\<close> of a member assigns to the master. A workbook value
  stands for a workbook as the library holds it after reading a file. Sheet-level settings
  (page setup, views, properties, columns, row heights, margins, header and footer, tab
  colour) are copied verbatim by the source and take no part in cell values, names or
  merges; they are left out of the state.
\<close>

type_synonym addr = "nat \<times> nat"
  \<comment> \<open>row and column, both counted from 1\<close>

record range =
  top_row :: nat
  left_col :: nat
  bottom_row :: nat
  right_col :: nat

record cell =
  cvalue :: jsval
  cstyle :: jsval

record worksheet =
  name :: string
  cells :: "(addr \<times> cell) list"
  merges :: "string list"

type_synonym workbook = "worksheet list"

subsection \<open>Addresses in A1 notation\<close>

definition is_upper :: "char \<Rightarrow> bool" where
  "is_upper c = (65 \<le> (of_char c :: nat) \<and> (of_char c :: nat) \<le> 90)"

definition is_digit :: "char \<Rightarrow> bool" where
  "is_digit c = (48 \<le> (of_char c :: nat) \<and> (of_char c :: nat) \<le> 57)"

definition col_number :: "string \<Rightarrow> nat" where
  "col_number ls = foldl (\<lambda>n c. 26 * n + (of_char c - 64)) 0 ls"

definition row_number :: "string \<Rightarrow> nat" where
  "row_number ds = foldl (\<lambda>n c. 10 * n + (of_char c - 48)) 0 ds"

definition decode_address :: "string \<Rightarrow> addr option" where
  "decode_address s =
     (let ls = takeWhile is_upper s; ds = dropWhile is_upper s
      in if ls \<noteq> [] \<and> ds \<noteq> [] \<and> list_all is_digit ds \<and> 0 < row_number ds
         then Some (row_number ds, col_number ls) else None)"

text \<open>A range address is two cell addresses around a colon; the corners are put in order.\<close>

definition decode_range :: "string \<Rightarrow> range option" where
  "decode_range r =
     (case dropWhile (\<lambda>c. c \<noteq> CHR '':'') r of
        [] \<Rightarrow> None
      | c # rest \<Rightarrow>
          (case (decode_address (takeWhile (\<lambda>c. c \<noteq> CHR '':'') r), decode_address rest) of
             (Some (r1, c1), Some (r2, c2)) \<Rightarrow>
               Some \<lparr>top_row = min r1 r2, left_col = min c1 c2,
                     bottom_row = max r1 r2, right_col = max c1 c2\<rparr>
           | _ \<Rightarrow> None))"

definition contains :: "range \<Rightarrow> addr \<Rightarrow> bool" where
  "contains d a =
     (top_row d \<le> fst a \<and> fst a \<le> bottom_row d \<and> left_col d \<le> snd a \<and> snd a \<le> right_col d)"

definition intersects :: "range \<Rightarrow> range \<Rightarrow> bool" where
  "intersects d d' =
     (\<not> (bottom_row d' < top_row d \<or> bottom_row d < top_row d' \<or>
         right_col d' < left_col d \<or> right_col d < left_col d'))"

text \<open>The fixed cell addresses of the source.\<close>

definition C1 :: addr where "C1 = (1, 3)"
definition C2 :: addr where "C2 = (2, 3)"
definition C3 :: addr where "C3 = (3, 3)"
definition C4 :: addr where "C4 = (4, 3)"
definition C5 :: addr where "C5 = (5, 3)"
definition C6 :: addr where "C6 = (6, 3)"
definition C7 :: addr where "C7 = (7, 3)"
definition C8 :: addr where "C8 = (8, 3)"
definition C9 :: addr where "C9 = (9, 3)"
definition C10 :: addr where "C10 = (10, 3)"
definition F6 :: addr where "F6 = (6, 6)"

subsection \<open>The operations of the library that the source calls\<close>

text \<open>\<^verbatim>\<open>sheet.getCell(address)\<close>: the stored cell, or an empty one.\<close>

definition empty_cell :: cell where
  "empty_cell = \<lparr>cvalue = JNull, cstyle = JObj []\<rparr>"

definition getCell :: "worksheet \<Rightarrow> addr \<Rightarrow> cell" where
  "getCell s a = (case map_of (cells s) a of Some c \<Rightarrow> c | None \<Rightarrow> empty_cell)"

text \<open>
  \<^verbatim>\<open>cell.master\<close>: the top-left cell of the merged range that holds the address, the cell
  itself when it is not merged.
\<close>

definition in_merge :: "addr \<Rightarrow> string \<Rightarrow> bool" where
  "in_merge a m = (case decode_range m of Some d \<Rightarrow> contains d a | None \<Rightarrow> False)"

definition merge_of :: "worksheet \<Rightarrow> addr \<Rightarrow> range option" where
  "merge_of s a = (case find (in_merge a) (merges s) of
                     Some m \<Rightarrow> decode_range m
                   | None \<Rightarrow> None)"

definition master_of :: "worksheet \<Rightarrow> addr \<Rightarrow> addr" where
  "master_of s a = (case merge_of s a of Some d \<Rightarrow> (top_row d, left_col d) | None \<Rightarrow> a)"

text \<open>
  Storing a value or a style in the cell at an address. This is what the setters
  \<^verbatim>\<open>cell.value = v\<close> and \<^verbatim>\<open>cell.style = st\<close> do on a cell that is not a member of a merged
  range under another master.
\<close>

definition store_value :: "worksheet \<Rightarrow> addr \<Rightarrow> jsval \<Rightarrow> worksheet" where
  "store_value s a v = s\<lparr>cells := AList.update a ((getCell s a)\<lparr>cvalue := v\<rparr>) (cells s)\<rparr>"

definition assign_style :: "worksheet \<Rightarrow> addr \<Rightarrow> jsval \<Rightarrow> worksheet" where
  "assign_style s a st = s\<lparr>cells := AList.update a ((getCell s a)\<lparr>cstyle := st\<rparr>) (cells s)\<rparr>"

text \<open>
  \<^verbatim>\<open>sheet.getCell(address).value = v\<close>: the setter of a merged member hands the value to the
  master of its range; on any other cell it stores the value in the cell.
\<close>

definition assign_value :: "worksheet \<Rightarrow> addr \<Rightarrow> jsval \<Rightarrow> worksheet" where
  "assign_value s a v = store_value s (master_of s a) v"

text \<open>Reading the value shown at an address: the value of its master.\<close>

definition read_value :: "worksheet \<Rightarrow> addr \<Rightarrow> jsval" where
  "read_value s a = cvalue (getCell s (master_of s a))"

text \<open>
  \<^verbatim>\<open>sheet.mergeCells(range)\<close> throws on a range that overlaps a range merged before;
  otherwise it records the range. The range addresses of a worksheet that the library
  holds are of the form that \<open>decode_range\<close> reads. How the library reads any other string
  is not modelled: here \<open>mergeCells\<close> fails on it, and the statements about the merges of a
  clone are made for source sheets whose merges are ranges of that form.
\<close>

definition conflicts :: "worksheet \<Rightarrow> range \<Rightarrow> bool" where
  "conflicts s d =
     (\<exists>m \<in> set (merges s). case decode_range m of Some d' \<Rightarrow> intersects d' d | None \<Rightarrow> False)"

definition mergeCells :: "worksheet \<Rightarrow> string \<Rightarrow> error + worksheet" where
  "mergeCells s r =
     (case decode_range r of
        None \<Rightarrow> Inl MergeError
      | Some d \<Rightarrow> if conflicts s d then Inl MergeError
                   else Inr (s\<lparr>merges := merges s @ [r]\<rparr>))"

text \<open>\<^verbatim>\<open>workbook.getWorksheet(name)\<close>: the first worksheet of that name.\<close>

definition getWorksheet :: "workbook \<Rightarrow> string \<Rightarrow> worksheet option" where
  "getWorksheet wb n = find (\<lambda>s. name s = n) wb"

text \<open>
  \<^verbatim>\<open>workbook.removeWorksheet(existing.id)\<close>: the id identifies the one worksheet object
  that \<^verbatim>\<open>getWorksheet\<close> returned, which leaves the workbook.
\<close>

definition removeWorksheet :: "workbook \<Rightarrow> worksheet \<Rightarrow> workbook" where
  "removeWorksheet wb existing = remove1 existing wb"

text \<open>
  \<^verbatim>\<open>workbook.addWorksheet(name, ...)\<close> throws \<^verbatim>\<open>Worksheet name already exists\<close> when a
  worksheet of the workbook has that name up to the case of its letters; otherwise it gives
  the new, empty worksheet, which joins the workbook at the end. Lower case is taken on the
  letters A to Z, which is what decides whether a name equals \<^verbatim>\<open>STT-\<close> and digits up to case.
  The library's other checks of a new name (empty, longer than 31 characters, a forbidden
  character) do not fire on \<^verbatim>\<open>STT-\<close> followed by an array index, which has at most ten
  digits.
\<close>

definition lower_char :: "char \<Rightarrow> char" where
  "lower_char c = (if is_upper c then char_of ((of_char c :: nat) + 32) else c)"

definition toLowerCase :: "string \<Rightarrow> string" where
  "toLowerCase s = map lower_char s"

definition new_sheet :: "string \<Rightarrow> worksheet" where
  "new_sheet n = \<lparr>name = n, cells = [], merges = []\<rparr>"

definition addWorksheet :: "workbook \<Rightarrow> string \<Rightarrow> error + worksheet" where
  "addWorksheet wb n =
     (if \<exists>s \<in> set wb. toLowerCase (name s) = toLowerCase n then Inl (NameExists n)
      else Inr (new_sheet n))"

text \<open>
  The worksheet object that \<^verbatim>\<open>getWorksheet\<close> returned is changed in place: in the workbook,
  the first worksheet of that name is the changed one.
\<close>

fun replaceWorksheet :: "workbook \<Rightarrow> string \<Rightarrow> worksheet \<Rightarrow> workbook" where
  "replaceWorksheet [] n s' = []"
| "replaceWorksheet (s # wb) n s' =
     (if name s = n then s' # wb else s # replaceWorksheet wb n s')"

section \<open>Writing through the merge master\<close>

text \<open>
  \<^verbatim>\<open>const cell = sheet.getCell(address); const target = cell.master || cell;
  target.value = value;\<close>
  The master is a cell object, hence truthy. It is the top-left cell of its range and no
  member under another master (the merged ranges of a worksheet do not overlap), so its
  setter stores the value in it.
\<close>

definition setCellValueKeepingMerge :: "worksheet \<Rightarrow> addr \<Rightarrow> jsval \<Rightarrow> worksheet" where
  "setCellValueKeepingMerge sheet address v =
     (let target = master_of sheet address in store_value sheet target v)"

section \<open>Template Filler\<close>

text \<open>
  The six writes of \<^verbatim>\<open>fillDataToTemplate\<close>:
  \<^verbatim>\<open>setCellValueKeepingMerge(sheet, 'C1', entry.name ?? '');\<close> and so on to
  \<^verbatim>\<open>setCellValueKeepingMerge(sheet, 'C6', entry.classcode ?? '');\<close>
\<close>

definition write_entry :: "worksheet \<Rightarrow> jsval \<Rightarrow> worksheet" where
  "write_entry sheet entry =
     (let s1 = setCellValueKeepingMerge sheet C1 (coalesce (get_prop entry ''name'') (JStr ''''));
          s2 = setCellValueKeepingMerge s1 C2 (coalesce (get_prop entry ''year'') (JStr ''''));
          s3 = setCellValueKeepingMerge s2 C3 (coalesce (get_prop entry ''school'') (JStr ''''));
          s4 = setCellValueKeepingMerge s3 C4 (coalesce (get_prop entry ''address'') (JStr ''''));
          s5 = setCellValueKeepingMerge s4 C5 (coalesce (get_prop entry ''address2'') (JStr ''''))
      in setCellValueKeepingMerge s5 C6 (coalesce (get_prop entry ''classcode'') (JStr '''')))"

text \<open>
  The files are a map from paths to workbooks; reading the template and writing the
  output are a lookup and an update of that map. The function returns the output path
  and the files after the write, or the error thrown. Creating the \<^verbatim>\<open>out\<close> directory
  when it is missing has no part in what is written and is left out, as are failures of
  the disk. Reading a property of an entry that is \<^verbatim>\<open>null\<close> or \<^verbatim>\<open>undefined\<close> throws
  before the first write.
\<close>

definition template3_path :: "env \<Rightarrow> string" where
  "template3_path e = path_join (dirname e) ''template3.xlsx''"

definition fillDataToTemplate ::
  "env \<Rightarrow> (string \<rightharpoonup> workbook) \<Rightarrow> jsval \<Rightarrow> string
     \<Rightarrow> error + (string \<times> (string \<rightharpoonup> workbook))" where
  "fillDataToTemplate e files entry outFilename =
     (let rootDir = dirname e;
          templatePath = path_join rootDir ''template3.xlsx'';
          outDir = path_join rootDir ''out''
      in case files templatePath of
           None \<Rightarrow> Inl (NotFound templatePath)
         | Some workbook \<Rightarrow>
             (case getWorksheet workbook ''data'' of
                None \<Rightarrow> Inl (MissingSheet ''data'')
              | Some sheet \<Rightarrow>
                  if nullish entry then Inl TypeError
                  else
                    let sheet' = write_entry sheet entry;
                        outPath = path_join outDir outFilename
                    in Inr (outPath, files(outPath \<mapsto> replaceWorksheet workbook ''data'' sheet'))))"

text \<open>
  The second \<^verbatim>\<open>fillDataToTemplate\<close> of the source file (its earlier variant) differs in
  the six writes only: \<^verbatim>\<open>sheet.getCell('C1').value = entry.name ?? '';\<close> and so on,
  the setter of the addressed cell without the helper.
\<close>

definition write_entry_earlier :: "worksheet \<Rightarrow> jsval \<Rightarrow> worksheet" where
  "write_entry_earlier sheet entry =
     (let s1 = assign_value sheet C1 (coalesce (get_prop entry ''name'') (JStr ''''));
          s2 = assign_value s1 C2 (coalesce (get_prop entry ''year'') (JStr ''''));
          s3 = assign_value s2 C3 (coalesce (get_prop entry ''school'') (JStr ''''));
          s4 = assign_value s3 C4 (coalesce (get_prop entry ''address'') (JStr ''''));
          s5 = assign_value s4 C5 (coalesce (get_prop entry ''address2'') (JStr ''''))
      in assign_value s5 C6 (coalesce (get_prop entry ''classcode'') (JStr '''')))"

definition fillDataToTemplate_earlier ::
  "env \<Rightarrow> (string \<rightharpoonup> workbook) \<Rightarrow> jsval \<Rightarrow> string
     \<Rightarrow> error + (string \<times> (string \<rightharpoonup> workbook))" where
  "fillDataToTemplate_earlier e files entry outFilename =
     (let rootDir = dirname e;
          templatePath = path_join rootDir ''template3.xlsx'';
          outDir = path_join rootDir ''out''
      in case files templatePath of
           None \<Rightarrow> Inl (NotFound templatePath)
         | Some workbook \<Rightarrow>
             (case getWorksheet workbook ''data'' of
                None \<Rightarrow> Inl (MissingSheet ''data'')
              | Some sheet \<Rightarrow>
                  if nullish entry then Inl TypeError
                  else
                    let sheet' = write_entry_earlier sheet entry;
                        outPath = path_join outDir outFilename
                    in Inr (outPath, files(outPath \<mapsto> replaceWorksheet workbook ''data'' sheet'))))"

section \<open>Sheet Cloner\<close>

text \<open>\<^verbatim>\<open>getMergeRanges\<close> returns \<^verbatim>\<open>Array.from(sheet.model.merges)\<close>: the range addresses.\<close>

definition getMergeRanges :: "worksheet \<Rightarrow> jsval list" where
  "getMergeRanges sheet = map JStr (merges sheet)"

text \<open>
  The body of \<^verbatim>\<open>row.eachCell\<close>: a cell that is not its own master is skipped; otherwise its
  value goes to the cell of the same address in the new sheet, its style too when it has
  one (the copy through \<^verbatim>\<open>JSON\<close> gives an equal value), and a formula cell gets the pair of
  its formula and result. The library types a cell as a formula when its value has a
  formula or a shared formula.
\<close>

definition is_formula :: "jsval \<Rightarrow> bool" where
  "is_formula v =
     (\<not> nullish v \<and> (truthy (get_prop v ''formula'') \<or> truthy (get_prop v ''sharedFormula'')))"

definition copy_cell :: "worksheet \<Rightarrow> worksheet \<Rightarrow> addr \<times> cell \<Rightarrow> worksheet" where
  "copy_cell formSheet newSheet ac =
     (case ac of (address, c) \<Rightarrow>
        let sourceMaster = master_of formSheet address
        in if sourceMaster \<noteq> address then newSheet
           else
             let t1 = assign_value newSheet address (cvalue c);
                 t2 = (if truthy (cstyle c) \<and> spread (cstyle c) \<noteq> []
                       then assign_style t1 address (cstyle c) else t1)
             in if is_formula (cvalue c) \<and> truthy (cvalue c) \<and> truthy (get_prop (cvalue c) ''formula'')
                then assign_value t2 address
                       (JObj [(''formula'', get_prop (cvalue c) ''formula''),
                              (''result'', get_prop (cvalue c) ''result'')])
                else t2)"

text \<open>\<^verbatim>\<open>formSheet.eachRow\<close> with \<^verbatim>\<open>row.eachCell\<close> inside: every stored cell, in order.\<close>

fun copy_cells :: "worksheet \<Rightarrow> worksheet \<Rightarrow> (addr \<times> cell) list \<Rightarrow> worksheet" where
  "copy_cells formSheet newSheet [] = newSheet"
| "copy_cells formSheet newSheet (ac # acs) =
     copy_cells formSheet (copy_cell formSheet newSheet ac) acs"

text \<open>
  \<^verbatim>\<open>for (const range of mergeRanges) { if (typeof range === 'string' && range.includes(':'))
  { try { newSheet.mergeCells(range); } catch (e) { } } }\<close>
\<close>

definition merge_one :: "worksheet \<Rightarrow> jsval \<Rightarrow> worksheet" where
  "merge_one newSheet rng =
     (case rng of
        JStr r \<Rightarrow>
          if CHR '':'' \<in> set r
          then (case mergeCells newSheet r of Inl e \<Rightarrow> newSheet | Inr s' \<Rightarrow> s')
          else newSheet
      | _ \<Rightarrow> newSheet)"

fun apply_merges :: "worksheet \<Rightarrow> jsval list \<Rightarrow> worksheet" where
  "apply_merges newSheet [] = newSheet"
| "apply_merges newSheet (rng # ranges) = apply_merges (merge_one newSheet rng) ranges"

text \<open>The label written to F6 (\<^verbatim>\<open>M\<close>, a with tilde, \<^verbatim>\<open>l\<close>, o with horn and acute, \<^verbatim>\<open>p: 18\<close>), in UTF-8.\<close>

definition class_label :: string where
  "class_label = [CHR ''M'', CHR 0xC3, CHR 0xA3, CHR '' '', CHR ''l'', CHR 0xE1, CHR 0xBB, CHR 0x9B,
                  CHR ''p'', CHR '':'', CHR '' '', CHR ''1'', CHR ''8'']"

text \<open>The six writes of the record's values.\<close>

definition write_item :: "worksheet \<Rightarrow> jsval \<Rightarrow> worksheet" where
  "write_item newSheet item =
     (let s1 = setCellValueKeepingMerge newSheet C6 (coalesce (get_prop item ''name'') (JStr ''''));
          s2 = setCellValueKeepingMerge s1 C7
                 (coalesce (coalesce (get_prop item ''year'') (get_prop item ''name2'')) (JStr ''''));
          s3 = setCellValueKeepingMerge s2 C8 (coalesce (get_prop item ''school'') (JStr ''''));
          s4 = setCellValueKeepingMerge s3 C9 (coalesce (get_prop item ''address'') (JStr ''''));
          s5 = setCellValueKeepingMerge s4 C10 (coalesce (get_prop item ''address2'') (JStr ''''))
      in setCellValueKeepingMerge s5 F6 (JStr class_label))"

text \<open>
  The first of them reads \<^verbatim>\<open>item.name\<close>, which throws when the item is \<^verbatim>\<open>null\<close> or
  \<^verbatim>\<open>undefined\<close>, before anything is written.
\<close>

definition fill_item :: "worksheet \<Rightarrow> jsval \<Rightarrow> error + worksheet" where
  "fill_item newSheet item =
     (if nullish item then Inl TypeError else Inr (write_item newSheet item))"

text \<open>
  What the loop body does to the new worksheet once it is created: the master cells are
  copied, the merges applied, the record written, the merges applied again. The
  \<^verbatim>\<open>try\<close> block that first assigns a copy of the source's \<^verbatim>\<open>model\<close> to the new sheet is, by
  its own \<^verbatim>\<open>catch\<close>, allowed to fail without effect (\<^verbatim>\<open>fall back to applying merges later\<close>);
  the fallback, which runs in every case, is what is modelled.
\<close>

definition clone_sheet :: "worksheet \<Rightarrow> jsval list \<Rightarrow> worksheet \<Rightarrow> jsval \<Rightarrow> error + worksheet" where
  "clone_sheet formSheet mergeRanges newSheet item =
     (let copied = copy_cells formSheet newSheet (cells formSheet);
          merged = apply_merges copied mergeRanges
      in case fill_item merged item of
           Inl err \<Rightarrow> Inl err
         | Inr filled \<Rightarrow> Inr (apply_merges filled mergeRanges))"

text \<open>\<^verbatim>\<open>"STT-" + String(i)\<close>\<close>

definition sheet_name :: "nat \<Rightarrow> string" where
  "sheet_name i = ''STT-'' @ String_nat i"

text \<open>
  \<^verbatim>\<open>const existing = workbook.getWorksheet(sheetName);
  if (existing) workbook.removeWorksheet(existing.id);\<close>
\<close>

definition remove_existing :: "workbook \<Rightarrow> string \<Rightarrow> workbook" where
  "remove_existing workbook sheetName =
     (case getWorksheet workbook sheetName of
        Some existing \<Rightarrow> removeWorksheet workbook existing
      | None \<Rightarrow> workbook)"

text \<open>
  One turn of \<^verbatim>\<open>for (let i = 0; i < dataArray.length; i++)\<close>. \<^verbatim>\<open>addWorksheet\<close> stands outside
  every \<^verbatim>\<open>try\<close>, so its error ends the run, as does the error of reading the item. The
  new worksheet is the last of the workbook and is filled in place.
\<close>

definition clone_step ::
  "worksheet \<Rightarrow> jsval list \<Rightarrow> workbook \<Rightarrow> nat \<Rightarrow> jsval \<Rightarrow> error + workbook" where
  "clone_step formSheet mergeRanges workbook i x =
     (let item = js_or x (JObj []);
          sheetName = sheet_name i;
          workbook1 = remove_existing workbook sheetName
      in case addWorksheet workbook1 sheetName of
           Inl err \<Rightarrow> Inl err
         | Inr newSheet \<Rightarrow>
             (case clone_sheet formSheet mergeRanges newSheet item of
                Inl err \<Rightarrow> Inl err
              | Inr sheet \<Rightarrow> Inr (workbook1 @ [sheet])))"

fun clone_loop ::
  "worksheet \<Rightarrow> jsval list \<Rightarrow> workbook \<Rightarrow> nat \<Rightarrow> jsval list \<Rightarrow> error + workbook" where
  "clone_loop formSheet mergeRanges workbook i [] = Inr workbook"
| "clone_loop formSheet mergeRanges workbook i (x # xs) =
     (case clone_step formSheet mergeRanges workbook i x of
        Inl err \<Rightarrow> Inl err
      | Inr workbook' \<Rightarrow> clone_loop formSheet mergeRanges workbook' (Suc i) xs)"

record opts =
  opt_templateFile :: "string option"
  opt_formSheetName :: "string option"

text \<open>\<^verbatim>\<open>opts.templateFile || 'template-all.xlsx'\<close>: the empty string is falsy too.\<close>

definition opt_or :: "string option \<Rightarrow> string \<Rightarrow> string" where
  "opt_or x d = (case x of None \<Rightarrow> d | Some s \<Rightarrow> if s = [] then d else s)"

definition createCopiesFromTemplateAll ::
  "env \<Rightarrow> (string \<rightharpoonup> workbook) \<Rightarrow> jsval list \<Rightarrow> string option \<Rightarrow> opts
     \<Rightarrow> error + (string \<times> (string \<rightharpoonup> workbook))" where
  "createCopiesFromTemplateAll e files dataArray outFilename opts =
     (let rootDir = dirname e;
          templateFile = opt_or (opt_templateFile opts) ''template-all.xlsx'';
          formSheetName = opt_or (opt_formSheetName opts) ''form'';
          templatePath = path_join rootDir templateFile;
          outDir = path_join rootDir ''out''
      in case files templatePath of
           None \<Rightarrow> Inl (NotFound templatePath)
         | Some workbook \<Rightarrow>
             (case getWorksheet workbook formSheetName of
                None \<Rightarrow> Inl (MissingSheet formSheetName)
              | Some formSheet \<Rightarrow>
                  let mergeRanges = getMergeRanges formSheet
                  in case clone_loop formSheet mergeRanges workbook 0 dataArray of
                       Inl err \<Rightarrow> Inl err
                     | Inr workbook' \<Rightarrow>
                         let outPath = path_join outDir
                                         (case outFilename of None \<Rightarrow> ''template-all-filled.xlsx''
                                          | Some f \<Rightarrow> f)
                         in Inr (outPath, files(outPath \<mapsto> workbook'))))"

text \<open>The template path and the name of the source sheet that a run of the cloner uses.\<close>

definition template_path :: "env \<Rightarrow> opts \<Rightarrow> string" where
  "template_path e opts = path_join (dirname e) (opt_or (opt_templateFile opts) ''template-all.xlsx'')"

definition form_name :: "opts \<Rightarrow> string" where
  "form_name opts = opt_or (opt_formSheetName opts) ''form''"

section \<open>Observing the output\<close>

text \<open>
  Re-opening the workbook that a run wrote at the path it returned: the worksheet of a
  given name, and the value read at an address of it.
\<close>

definition output_sheet ::
  "error + (string \<times> (string \<rightharpoonup> workbook)) \<Rightarrow> string \<Rightarrow> worksheet option" where
  "output_sheet res n =
     (case res of
        Inl err \<Rightarrow> None
      | Inr (outPath, files') \<Rightarrow>
          (case files' outPath of None \<Rightarrow> None | Some wb \<Rightarrow> getWorksheet wb n))"

definition output_value ::
  "error + (string \<times> (string \<rightharpoonup> workbook)) \<Rightarrow> string \<Rightarrow> addr \<Rightarrow> jsval option" where
  "output_value res n a =
     (case output_sheet res n of None \<Rightarrow> None | Some s \<Rightarrow> Some (read_value s a))"

text \<open>
  A range entry that the merge loop applies to a worksheet in its current state: a string
  with a colon that is a range and overlaps no range merged so far.
\<close>

definition applicable :: "worksheet \<Rightarrow> jsval \<Rightarrow> bool" where
  "applicable s rng =
     (case rng of
        JStr r \<Rightarrow> CHR '':'' \<in> set r \<and>
                  (case decode_range r of Some d \<Rightarrow> \<not> conflicts s d | None \<Rightarrow> False)
      | _ \<Rightarrow> False)"


text \<open>The error of a run, if it threw.\<close>

definition run_error :: "error + 'a \<Rightarrow> error option" where
  "run_error res = (case res of Inl err \<Rightarrow> Some err | Inr r \<Rightarrow> None)"

text \<open>
  The worksheet that a turn of the loop leaves for the element \<open>x\<close> at index \<open>i\<close> when
  nothing throws: the copy of the source sheet under the name \<open>STT-i\<close>, merges applied, with
  the values of the record \<^verbatim>\<open>x || {}\<close> written.
\<close>

definition clone_of :: "worksheet \<Rightarrow> nat \<Rightarrow> jsval \<Rightarrow> worksheet" where
  "clone_of formSheet i x =
     write_item
       (apply_merges (copy_cells formSheet (new_sheet (sheet_name i)) (cells formSheet))
          (getMergeRanges formSheet))
       (js_or x (JObj []))"

text \<open>
  The names of a workbook leave room for the \<open>n\<close> clones: they are distinct, and a worksheet
  whose name equals some \<open>STT-i\<close> with \<open>i < n\<close> up to the case of its letters is named \<open>STT-i\<close>
  (it is the one that the loop removes).
\<close>

definition names_free :: "workbook \<Rightarrow> nat \<Rightarrow> bool" where
  "names_free wb n =
     (distinct (map name wb) \<and>
      list_all (\<lambda>s. list_all (\<lambda>i. toLowerCase (name s) = toLowerCase (sheet_name i)
                                    \<longrightarrow> name s = sheet_name i) [0 ..< n]) wb)"

text \<open>
  The merges of a worksheet as a loaded worksheet has them: each is a range address, and no
  two of them overlap.
\<close>

definition overlap :: "string \<Rightarrow> string \<Rightarrow> bool" where
  "overlap r r' =
     (case (decode_range r, decode_range r') of
        (Some d, Some d') \<Rightarrow> intersects d d'
      | _ \<Rightarrow> False)"

fun disjoint_ranges :: "string list \<Rightarrow> bool" where
  "disjoint_ranges [] = True"
| "disjoint_ranges (r # rs) = (list_all (\<lambda>r'. \<not> overlap r r') rs \<and> disjoint_ranges rs)"

definition plain_merges :: "worksheet \<Rightarrow> bool" where
  "plain_merges s =
     (list_all (\<lambda>r. decode_range r \<noteq> None) (merges s) \<and> disjoint_ranges (merges s))"

section \<open>Properties of the Record Loader\<close>

lemma floor_index_div: "\<lfloor>real idx / 20\<rfloor> = int (idx div 20)"
proof -
  have "real idx / 20 = real idx / real 20" by simp
  then show ?thesis by (simp only: floor_divide_of_nat_eq)
qed

lemma get_prop_add_classcode:
  "get_prop (add_classcode idx item) ''classcode'' = JNum (18 + int (idx div 20))"
  by (simp add: add_classcode_def floor_index_div AList.update_conv')

lemma classcode_of_add_classcode:
  "classcode_of (add_classcode idx item) = Some (18 + int (idx div 20))"
  by (simp add: classcode_of_def get_prop_add_classcode)

lemma read_array:
  assumes "files (data_file e dataPath) = Some (Parsed (JArr xs))"
  shows "readDataWithClasscodes e files dataPath =
           Inr (map (\<lambda>(idx, item). add_classcode idx item) (enumerate 0 xs))"
  using assms by (simp add: readDataWithClasscodes_def)

lemma nth_loaded:
  assumes "i < length xs"
  shows "map (\<lambda>(idx, item). add_classcode idx item) (enumerate 0 xs) ! i
           = add_classcode i (xs ! i)"
  using assms by (simp add: nth_enumerate_eq)

subsection \<open>The class code\<close>

text \<open>
  Claim C4. When the data file holds an array of length \<open>L\<close>, loading returns \<open>L\<close> records,
  the record at index \<open>i\<close> has \<open>classcode = 18 + floor (i / 20)\<close>, the class code does not
  decrease along the array, and two indices of the same block of 20 have the same class code.
\<close>

theorem classcode_step_function:
  assumes "files (data_file e dataPath) = Some (Parsed (JArr xs))"
  shows "\<exists>recs. readDataWithClasscodes e files dataPath = Inr recs \<and> length recs = length xs
           \<and> (\<forall>i<length xs. get_prop (recs ! i) ''classcode'' = JNum (18 + \<lfloor>real i / 20\<rfloor>))
           \<and> (\<forall>i j. i \<le> j \<and> j < length xs \<longrightarrow>
                 (\<exists>a b. classcode_of (recs ! i) = Some a \<and> classcode_of (recs ! j) = Some b \<and> a \<le> b))
           \<and> (\<forall>i j. i < length xs \<and> j < length xs \<and> i div 20 = j div 20 \<longrightarrow>
                 classcode_of (recs ! i) = classcode_of (recs ! j))"
proof -
  let ?recs = "map (\<lambda>(idx, item). add_classcode idx item) (enumerate 0 xs)"
  have run: "readDataWithClasscodes e files dataPath = Inr ?recs"
    using assms by (rule read_array)
  have len: "length ?recs = length xs" by simp
  have code: "get_prop (?recs ! i) ''classcode'' = JNum (18 + \<lfloor>real i / 20\<rfloor>)"
    if "i < length xs" for i
    using that by (simp only: nth_loaded get_prop_add_classcode floor_index_div)
  have mono: "\<exists>a b. classcode_of (?recs ! i) = Some a \<and> classcode_of (?recs ! j) = Some b \<and> a \<le> b"
    if "i \<le> j" "j < length xs" for i j
  proof -
    from that have "i < length xs" by simp
    then have "classcode_of (?recs ! i) = Some (18 + int (i div 20))"
      by (simp only: nth_loaded classcode_of_add_classcode)
    moreover have "classcode_of (?recs ! j) = Some (18 + int (j div 20))"
      using that(2) by (simp only: nth_loaded classcode_of_add_classcode)
    moreover have "18 + int (i div 20) \<le> 18 + int (j div 20)"
      using that(1) by (simp add: div_le_mono)
    ultimately show ?thesis by blast
  qed
  have block: "classcode_of (?recs ! i) = classcode_of (?recs ! j)"
    if "i < length xs" "j < length xs" "i div 20 = j div 20" for i j
    using that by (simp only: nth_loaded classcode_of_add_classcode)
  from run len code mono block show ?thesis by blast
qed

theorem classcode_step_function_witness:
  "\<exists>recs. readDataWithClasscodes \<lparr>dirname = ''/app'', cwd = ''/home''\<rparr>
             [''/app/data2.json'' \<mapsto> Parsed (JArr [JObj [(''name'', JStr ''A'')], JObj [(''name'', JStr ''B'')]])]
             None = Inr recs
       \<and> length recs = 2
       \<and> get_prop (recs ! 0) ''classcode'' = JNum 18 \<and> get_prop (recs ! 1) ''classcode'' = JNum 18"
proof -
  let ?e = "\<lparr>dirname = ''/app'', cwd = ''/home''\<rparr>"
  let ?xs = "[JObj [(''name'', JStr ''A'')], JObj [(''name'', JStr ''B'')]]"
  let ?files = "[''/app/data2.json'' \<mapsto> Parsed (JArr ?xs)]"
  have h: "?files (data_file ?e None) = Some (Parsed (JArr ?xs))"
    by (simp add: data_file_def path_join_def)
  from classcode_step_function [of ?files ?e None ?xs, OF h] obtain recs where
    r: "readDataWithClasscodes ?e ?files None = Inr recs" "length recs = length ?xs"
       "\<forall>i<length ?xs. get_prop (recs ! i) ''classcode'' = JNum (18 + \<lfloor>real i / 20\<rfloor>)"
    by blast
  from r(3) have "get_prop (recs ! 0) ''classcode'' = JNum 18" 
    by simp
  moreover from r(3) have "get_prop (recs ! 1) ''classcode'' = JNum (18 + \<lfloor>real (1::nat) / 20\<rfloor>)" 
    by simp
  then have "get_prop (recs ! 1) ''classcode'' = JNum 18" by simp
  ultimately show ?thesis using r(1,2) by simp
qed

subsection \<open>Errors of loading\<close>

text \<open>
  Claim C6. Loading fails with \<open>NotFound\<close> exactly when the data file is absent, with
  \<open>ShapeError\<close> exactly when the file is there and parses to a value that is not an array,
  and it produces a sequence of records exactly when the file parses to an array, so never
  together with one of these errors.
\<close>

theorem load_errors:
  "((\<exists>p. readDataWithClasscodes e files dataPath = Inl (NotFound p))
      \<longleftrightarrow> files (data_file e dataPath) = None)
   \<and> (readDataWithClasscodes e files dataPath = Inl ShapeError
      \<longleftrightarrow> (\<exists>v. files (data_file e dataPath) = Some (Parsed v) \<and> \<not> isArray v))
   \<and> ((\<exists>recs. readDataWithClasscodes e files dataPath = Inr recs)
      \<longleftrightarrow> (\<exists>xs. files (data_file e dataPath) = Some (Parsed (JArr xs))))"
  by (auto simp add: readDataWithClasscodes_def isArray_def Let_def
           split: option.splits json_file.splits jsval.splits)

theorem load_errors_witness:
  "readDataWithClasscodes \<lparr>dirname = ''/app'', cwd = ''/home''\<rparr>
     [''/app/data2.json'' \<mapsto> Parsed (JObj [(''name'', JStr ''A'')])] None = Inl ShapeError
   \<and> (\<exists>p. readDataWithClasscodes \<lparr>dirname = ''/app'', cwd = ''/home''\<rparr>
              Map.empty (Some ''/tmp/missing.json'') = Inl (NotFound p))"
proof -
  let ?e = "\<lparr>dirname = ''/app'', cwd = ''/home''\<rparr>"
  let ?files = "[''/app/data2.json'' \<mapsto> Parsed (JObj [(''name'', JStr ''A'')])]"
  have "\<exists>v. ?files (data_file ?e None) = Some (Parsed v) \<and> \<not> isArray v"
    by (simp add: data_file_def path_join_def isArray_def)
  with load_errors [of ?e ?files None]
  have "readDataWithClasscodes ?e ?files None = Inl ShapeError" by blast
  moreover have "(Map.empty :: string \<rightharpoonup> json_file) (data_file ?e (Some ''/tmp/missing.json'')) = None"
    by simp
  with load_errors [of ?e Map.empty "Some ''/tmp/missing.json''"]
  have "\<exists>p. readDataWithClasscodes ?e Map.empty (Some ''/tmp/missing.json'') = Inl (NotFound p)"
    by blast
  ultimately show ?thesis by blast
qed

subsection \<open>Order and frame of loading\<close>

text \<open>
  Claim C8. Loading keeps the order of the input array: the record at index \<open>i\<close> is the
  element at index \<open>i\<close> with \<open>classcode\<close> set. Its keys are those of the element in their
  order, with \<open>classcode\<close> appended when the element had none, and every key other than
  \<open>classcode\<close> keeps its value.
\<close>

theorem load_keeps_fields:
  assumes "files (data_file e dataPath) = Some (Parsed (JArr xs))"
  shows "\<exists>recs. readDataWithClasscodes e files dataPath = Inr recs \<and> length recs = length xs
           \<and> (\<forall>i<length xs. \<exists>kvs'. recs ! i = JObj kvs'
                 \<and> map fst kvs' = (if ''classcode'' \<in> set (map fst (spread (xs ! i)))
                                   then map fst (spread (xs ! i))
                                   else map fst (spread (xs ! i)) @ [''classcode''])
                 \<and> (\<forall>k. k \<noteq> ''classcode'' \<longrightarrow> map_of kvs' k = map_of (spread (xs ! i)) k))
           \<and> (\<forall>i<length xs. \<forall>kvs. xs ! i = JObj kvs \<longrightarrow>
                 (\<forall>k. k \<noteq> ''classcode'' \<longrightarrow> get_prop (recs ! i) k = get_prop (xs ! i) k))"
proof -
  let ?recs = "map (\<lambda>(idx, item). add_classcode idx item) (enumerate 0 xs)"
  have run: "readDataWithClasscodes e files dataPath = Inr ?recs"
    using assms by (rule read_array)
  have len: "length ?recs = length xs" by simp
  have shape: "\<exists>kvs'. ?recs ! i = JObj kvs'
                 \<and> map fst kvs' = (if ''classcode'' \<in> set (map fst (spread (xs ! i)))
                                   then map fst (spread (xs ! i))
                                   else map fst (spread (xs ! i)) @ [''classcode''])
                 \<and> (\<forall>k. k \<noteq> ''classcode'' \<longrightarrow> map_of kvs' k = map_of (spread (xs ! i)) k)"
    if "i < length xs" for i
  proof -
    let ?kvs = "AList.update ''classcode'' (JNum (18 + \<lfloor>real i / 20\<rfloor>)) (spread (xs ! i))"
    have "?recs ! i = add_classcode i (xs ! i)"
      using that by (rule nth_loaded)
    then have "?recs ! i = JObj ?kvs"
      by (simp add: add_classcode_def)
    moreover have "map fst ?kvs = (if ''classcode'' \<in> set (map fst (spread (xs ! i)))
                                   then map fst (spread (xs ! i))
                                   else map fst (spread (xs ! i)) @ [''classcode''])"
      by (rule AList.update_keys)
    moreover have "\<forall>k. k \<noteq> ''classcode'' \<longrightarrow> map_of ?kvs k = map_of (spread (xs ! i)) k"
      by (simp add: AList.update_conv')
    ultimately show ?thesis by blast
  qed
  have frame: "get_prop (?recs ! i) k = get_prop (xs ! i) k"
    if "i < length xs" "xs ! i = JObj kvs" "k \<noteq> ''classcode''" for i k kvs
  proof -
    have "?recs ! i = add_classcode i (xs ! i)"
      using that(1) by (rule nth_loaded)
    then show ?thesis
      using that(2,3) by (simp add: add_classcode_def AList.update_conv')
  qed
  from run len shape frame show ?thesis by blast
qed

theorem load_keeps_fields_witness:
  "\<exists>recs. readDataWithClasscodes \<lparr>dirname = ''/app'', cwd = ''/home''\<rparr>
             [''/app/data2.json'' \<mapsto>
                Parsed (JArr [JObj [(''name'', JStr ''A''), (''year'', JNum 2001)],
                              JObj [(''name'', JStr ''B'')]])]
             None = Inr recs
       \<and> length recs = 2
       \<and> get_prop (recs ! 0) ''name'' = JStr ''A'' \<and> get_prop (recs ! 0) ''year'' = JNum 2001
       \<and> get_prop (recs ! 1) ''name'' = JStr ''B''"
proof -
  let ?e = "\<lparr>dirname = ''/app'', cwd = ''/home''\<rparr>"
  let ?xs = "[JObj [(''name'', JStr ''A''), (''year'', JNum 2001)], JObj [(''name'', JStr ''B'')]]"
  let ?files = "[''/app/data2.json'' \<mapsto> Parsed (JArr ?xs)]"
  have h: "?files (data_file ?e None) = Some (Parsed (JArr ?xs))"
    by (simp add: data_file_def path_join_def)
  from load_keeps_fields [of ?files ?e None ?xs, OF h] obtain recs where
    r: "readDataWithClasscodes ?e ?files None = Inr recs" "length recs = length ?xs"
       "\<forall>i<length ?xs. \<forall>kvs. ?xs ! i = JObj kvs \<longrightarrow>
          (\<forall>k. k \<noteq> ''classcode'' \<longrightarrow> get_prop (recs ! i) k = get_prop (?xs ! i) k)"
    by blast
  from r(3) have a: "\<forall>k. k \<noteq> ''classcode'' \<longrightarrow> get_prop (recs ! 0) k = get_prop (?xs ! 0) k"
    by simp
  from r(3) have b: "\<forall>k. k \<noteq> ''classcode'' \<longrightarrow> get_prop (recs ! 1) k = get_prop (?xs ! 1) k"
    by simp
  from a have "get_prop (recs ! 0) ''name'' = JStr ''A''" "get_prop (recs ! 0) ''year'' = JNum 2001"
    by simp_all
  moreover from b have "get_prop (recs ! 1) ''name'' = JStr ''B''" by simp
  ultimately show ?thesis using r(1,2) by simp
qed


section \<open>Cells and masters\<close>

text \<open>The address constants are the addresses that the source writes in A1 notation.\<close>

lemma fixed_addresses:
  "decode_address ''C1'' = Some C1" "decode_address ''C2'' = Some C2"
  "decode_address ''C3'' = Some C3" "decode_address ''C4'' = Some C4"
  "decode_address ''C5'' = Some C5" "decode_address ''C6'' = Some C6"
  "decode_address ''C7'' = Some C7" "decode_address ''C8'' = Some C8"
  "decode_address ''C9'' = Some C9" "decode_address ''C10'' = Some C10"
  "decode_address ''F6'' = Some F6"
  by (simp_all add: decode_address_def is_upper_def is_digit_def row_number_def col_number_def
        C1_def C2_def C3_def C4_def C5_def C6_def C7_def C8_def C9_def C10_def F6_def)

lemma merges_store_value [simp]: "merges (store_value s a v) = merges s"
  by (simp add: store_value_def)

lemma name_store_value [simp]: "name (store_value s a v) = name s"
  by (simp add: store_value_def)

lemma merges_assign_value [simp]: "merges (assign_value s a v) = merges s"
  by (simp add: assign_value_def)

lemma name_assign_value [simp]: "name (assign_value s a v) = name s"
  by (simp add: assign_value_def)

lemma merges_assign_style [simp]: "merges (assign_style s a st) = merges s"
  by (simp add: assign_style_def)

lemma name_assign_style [simp]: "name (assign_style s a st) = name s"
  by (simp add: assign_style_def)

lemma getCell_store_value:
  "getCell (store_value s a v) b = (if b = a then (getCell s a)\<lparr>cvalue := v\<rparr> else getCell s b)"
  by (simp add: store_value_def getCell_def AList.update_conv')

lemma getCell_assign_style:
  "getCell (assign_style s a st) b = (if b = a then (getCell s a)\<lparr>cstyle := st\<rparr> else getCell s b)"
  by (simp add: assign_style_def getCell_def AList.update_conv')

lemma keys_store_value:
  "fst ` set (cells (store_value s a v)) = insert a (fst ` set (cells s))"
  by (simp add: store_value_def AList.dom_update)

lemma keys_assign_style:
  "fst ` set (cells (assign_style s a st)) = insert a (fst ` set (cells s))"
  by (simp add: assign_style_def AList.dom_update)

lemma merge_of_cong: "merges s = merges s' \<Longrightarrow> merge_of s a = merge_of s' a"
  by (simp add: merge_of_def)

lemma master_of_cong: "merges s = merges s' \<Longrightarrow> master_of s a = master_of s' a"
  by (simp add: master_of_def merge_of_def)

lemma merge_of_SomeD:
  assumes "merge_of s a = Some d"
  shows "\<exists>m \<in> set (merges s). decode_range m = Some d \<and> contains d a"
proof -
  from assms obtain m where f: "find (in_merge a) (merges s) = Some m" and d: "decode_range m = Some d"
    by (auto simp add: merge_of_def split: option.splits)
  from f have "m \<in> set (merges s)" "in_merge a m"
    by (auto simp add: find_Some_iff)
  with d show ?thesis by (auto simp add: in_merge_def)
qed

lemma merge_of_None_master: "merge_of s a = None \<Longrightarrow> master_of s a = a"
  by (simp add: master_of_def)

lemma merge_of_Some_master: "merge_of s a = Some d \<Longrightarrow> master_of s a = (top_row d, left_col d)"
  by (simp add: master_of_def)

lemma decode_range_ordered:
  assumes "decode_range m = Some d"
  shows "top_row d \<le> bottom_row d \<and> left_col d \<le> right_col d"
  using assms
  by (auto simp add: decode_range_def split: list.splits option.splits prod.splits)

lemma merges_setCell [simp]: "merges (setCellValueKeepingMerge s a v) = merges s"
  by (simp add: setCellValueKeepingMerge_def)

lemma name_setCell [simp]: "name (setCellValueKeepingMerge s a v) = name s"
  by (simp add: setCellValueKeepingMerge_def)

lemma master_of_setCell [simp]: "master_of (setCellValueKeepingMerge s a v) b = master_of s b"
  by (rule master_of_cong) simp

lemma getCell_setCell:
  "getCell (setCellValueKeepingMerge s a v) b =
     (if b = master_of s a then (getCell s (master_of s a))\<lparr>cvalue := v\<rparr> else getCell s b)"
  by (simp add: setCellValueKeepingMerge_def getCell_store_value)

text \<open>The setter of a cell and the helper write the same cell.\<close>

lemma assign_value_setCell: "assign_value s a v = setCellValueKeepingMerge s a v"
  by (simp add: assign_value_def setCellValueKeepingMerge_def)

lemma master_of_no_merges: "merges s = [] \<Longrightarrow> master_of s a = a"
  by (simp add: master_of_def merge_of_def)

section \<open>The copy loop\<close>

lemma name_copy_cell [simp]: "name (copy_cell formSheet newSheet ac) = name newSheet"
  by (cases ac) (simp add: copy_cell_def Let_def)

lemma merges_copy_cell [simp]: "merges (copy_cell formSheet newSheet ac) = merges newSheet"
  by (cases ac) (simp add: copy_cell_def Let_def)

lemma name_copy_cells [simp]: "name (copy_cells formSheet newSheet acs) = name newSheet"
  by (induction acs arbitrary: newSheet) simp_all

lemma merges_copy_cells [simp]: "merges (copy_cells formSheet newSheet acs) = merges newSheet"
  by (induction acs arbitrary: newSheet) simp_all

lemma keys_copy_cell:
  assumes "merges newSheet = []"
  shows "fst ` set (cells (copy_cell formSheet newSheet (a, c))) =
     (if master_of formSheet a = a then insert a (fst ` set (cells newSheet))
      else fst ` set (cells newSheet))"
  using assms
  by (simp add: copy_cell_def Let_def assign_value_def master_of_no_merges
        keys_store_value keys_assign_style)

lemma keys_copy_cells:
  assumes "merges newSheet = []"
  shows "fst ` set (cells (copy_cells formSheet newSheet acs)) =
     fst ` set (cells newSheet) \<union> {a \<in> fst ` set acs. master_of formSheet a = a}"
  using assms
proof (induction acs arbitrary: newSheet)
  case Nil
  then show ?case by simp
next
  case (Cons ac acs)
  obtain a c where ac: "ac = (a, c)" by (cases ac)
  from Cons.prems have m: "merges (copy_cell formSheet newSheet (a, c)) = []" by simp
  show ?case
    unfolding copy_cells.simps ac Cons.IH [OF m] keys_copy_cell [OF Cons.prems] by auto
qed

section \<open>Writes go to the merge master\<close>

text \<open>
  Claim C1. When an address lies inside a merged range of a worksheet,
  \<open>setCellValueKeepingMerge\<close> assigns the value to the master of that range, its top-left
  cell, and leaves every other cell as it was, the non-master members of the range among
  them; the merges stay as they are. The copy loop of the Sheet Cloner gives the new sheet a
  cell exactly at the stored addresses of the source that are their own master, so no
  non-master member of a merged range is copied; the new sheet has no merge while the loop
  runs, so each cell it assigns is its own master there.
\<close>

theorem writes_resolve_to_master:
  "(merge_of sheet address = Some d \<longrightarrow>
      contains d address \<and> contains d (top_row d, left_col d)
      \<and> cvalue (getCell (setCellValueKeepingMerge sheet address v) (top_row d, left_col d)) = v
      \<and> (\<forall>b. b \<noteq> (top_row d, left_col d) \<longrightarrow>
             getCell (setCellValueKeepingMerge sheet address v) b = getCell sheet b)
      \<and> merges (setCellValueKeepingMerge sheet address v) = merges sheet)
   \<and> fst ` set (cells (copy_cells formSheet \<lparr>name = n, cells = [], merges = []\<rparr> (cells formSheet)))
       = {a \<in> fst ` set (cells formSheet). master_of formSheet a = a}
   \<and> (\<forall>a acs. master_of (copy_cells formSheet \<lparr>name = n, cells = [], merges = []\<rparr> acs) a = a)"
proof -
  have a: "contains d address \<and> contains d (top_row d, left_col d)
      \<and> cvalue (getCell (setCellValueKeepingMerge sheet address v) (top_row d, left_col d)) = v
      \<and> (\<forall>b. b \<noteq> (top_row d, left_col d) \<longrightarrow>
             getCell (setCellValueKeepingMerge sheet address v) b = getCell sheet b)
      \<and> merges (setCellValueKeepingMerge sheet address v) = merges sheet"
    if m: "merge_of sheet address = Some d"
  proof -
    from merge_of_SomeD [OF m] obtain r where r: "decode_range r = Some d" "contains d address"
      by blast
    from decode_range_ordered [OF r(1)] have "contains d (top_row d, left_col d)"
      by (simp add: contains_def)
    moreover note r(2)
    moreover have "master_of sheet address = (top_row d, left_col d)"
      using m by (rule merge_of_Some_master)
    ultimately show ?thesis by (simp add: getCell_setCell)
  qed
  have b: "fst ` set (cells (copy_cells formSheet \<lparr>name = n, cells = [], merges = []\<rparr> (cells formSheet)))
       = {a \<in> fst ` set (cells formSheet). master_of formSheet a = a}"
    by (simp add: keys_copy_cells)
  have c: "\<forall>a acs. master_of (copy_cells formSheet \<lparr>name = n, cells = [], merges = []\<rparr> acs) a = a"
    by (simp add: master_of_def merge_of_def)
  from a b c show ?thesis by blast
qed

theorem writes_resolve_to_master_witness:
  "cvalue (getCell (setCellValueKeepingMerge
             \<lparr>name = ''data'', cells = [((1, 3), \<lparr>cvalue = JStr ''old'', cstyle = JObj []\<rparr>)],
                merges = [''A1:C1'']\<rparr> C1 (JStr ''new'')) (1, 1)) = JStr ''new''
   \<and> getCell (setCellValueKeepingMerge
             \<lparr>name = ''data'', cells = [((1, 3), \<lparr>cvalue = JStr ''old'', cstyle = JObj []\<rparr>)],
                merges = [''A1:C1'']\<rparr> C1 (JStr ''new'')) C1
       = \<lparr>cvalue = JStr ''old'', cstyle = JObj []\<rparr>"
proof -
  let ?s = "\<lparr>name = ''data'', cells = [((1, 3), \<lparr>cvalue = JStr ''old'', cstyle = JObj []\<rparr>)],
              merges = [''A1:C1'']\<rparr>"
  let ?d = "\<lparr>top_row = 1, left_col = 1, bottom_row = 1, right_col = 3\<rparr>"
  have dec: "decode_range ''A1:C1'' = Some ?d"
    by (simp add: decode_range_def decode_address_def is_upper_def is_digit_def
          row_number_def col_number_def)
  have m: "merge_of ?s C1 = Some ?d"
    by (simp add: merge_of_def in_merge_def dec contains_def C1_def)
  from writes_resolve_to_master [of ?s C1 ?d "JStr ''new''"] m
  have "cvalue (getCell (setCellValueKeepingMerge ?s C1 (JStr ''new'')) (top_row ?d, left_col ?d))
          = JStr ''new''"
    and "\<forall>b. b \<noteq> (top_row ?d, left_col ?d) \<longrightarrow>
           getCell (setCellValueKeepingMerge ?s C1 (JStr ''new'')) b = getCell ?s b"
    by blast+
  then show ?thesis by (simp add: C1_def getCell_def)
qed


section \<open>The merge loop\<close>

lemma merge_one_applicable:
  "merge_one s rng =
     (if applicable s rng then (case rng of JStr r \<Rightarrow> s\<lparr>merges := merges s @ [r]\<rparr> | _ \<Rightarrow> s) else s)"
  by (auto simp add: merge_one_def applicable_def mergeCells_def
           split: jsval.splits option.splits)

lemma cells_merge_one [simp]: "cells (merge_one s rng) = cells s"
  by (simp add: merge_one_applicable split: jsval.splits)

lemma name_merge_one [simp]: "name (merge_one s rng) = name s"
  by (simp add: merge_one_applicable split: jsval.splits)

lemma cells_apply_merges [simp]: "cells (apply_merges s ranges) = cells s"
  by (induction ranges arbitrary: s) simp_all

lemma name_apply_merges [simp]: "name (apply_merges s ranges) = name s"
  by (induction ranges arbitrary: s) simp_all

lemma merges_merge_one_mono: "set (merges s) \<subseteq> set (merges (merge_one s rng))"
  by (auto simp add: merge_one_applicable split: jsval.splits)

lemma merges_apply_merges_mono: "set (merges s) \<subseteq> set (merges (apply_merges s ranges))"
proof (induction ranges arbitrary: s)
  case Nil
  then show ?case by simp
next
  case (Cons rng ranges)
  have "set (merges s) \<subseteq> set (merges (merge_one s rng))"
    by (rule merges_merge_one_mono)
  also have "\<dots> \<subseteq> set (merges (apply_merges (merge_one s rng) ranges))"
    by (rule Cons.IH)
  finally show ?case by simp
qed

lemma merges_merge_one_upper:
  "set (merges (merge_one s rng)) \<subseteq> set (merges s) \<union> {r. rng = JStr r}"
  by (auto simp add: merge_one_applicable split: jsval.splits)

lemma merges_apply_merges_upper:
  "set (merges (apply_merges s ranges)) \<subseteq> set (merges s) \<union> {r. JStr r \<in> set ranges}"
proof (induction ranges arbitrary: s)
  case Nil
  then show ?case by simp
next
  case (Cons rng ranges)
  have "set (merges (apply_merges (merge_one s rng) ranges))
          \<subseteq> set (merges (merge_one s rng)) \<union> {r. JStr r \<in> set ranges}"
    by (rule Cons.IH)
  with merges_merge_one_upper [of s rng] show ?case by auto
qed

lemma apply_merges_append:
  "apply_merges s (pre @ post) = apply_merges (apply_merges s pre) post"
  by (induction pre arbitrary: s) simp_all

lemma conflictsI:
  "m \<in> set (merges s) \<Longrightarrow> decode_range m = Some d' \<Longrightarrow> intersects d' d \<Longrightarrow> conflicts s d"
  unfolding conflicts_def by (rule bexI [of _ m]) simp_all

lemma conflicts_cong: "merges s = merges s' \<Longrightarrow> conflicts s d = conflicts s' d"
  by (simp add: conflicts_def)

lemma conflicts_mono:
  "set (merges s) \<subseteq> set (merges s') \<Longrightarrow> conflicts s d \<Longrightarrow> conflicts s' d"
  by (auto simp add: conflicts_def)

lemma applicable_antimono:
  "set (merges s) \<subseteq> set (merges s') \<Longrightarrow> \<not> applicable s rng \<Longrightarrow> \<not> applicable s' rng"
  by (auto simp add: applicable_def dest: conflicts_mono split: jsval.splits option.splits)

lemma applicable_cong: "merges s = merges s' \<Longrightarrow> applicable s rng = applicable s' rng"
  by (simp add: applicable_def conflicts_cong [of s s'] split: jsval.splits option.splits)

lemma intersects_self:
  "decode_range r = Some d \<Longrightarrow> intersects d d"
  by (drule decode_range_ordered) (auto simp add: intersects_def)

lemma not_applicable_after_merge_one: "\<not> applicable (merge_one s rng) rng"
proof (cases "applicable s rng")
  case False
  then show ?thesis by (simp add: merge_one_applicable)
next
  case True
  then obtain r d where r: "rng = JStr r" "decode_range r = Some d"
    by (auto simp add: applicable_def split: jsval.splits option.splits)
  from r(2) have "intersects d d" by (rule intersects_self)
  moreover from r True have "r \<in> set (merges (merge_one s rng))"
    by (simp add: merge_one_applicable)
  ultimately have "conflicts (merge_one s rng) d"
    using r(2) by (blast intro: conflictsI)
  with r show ?thesis by (simp add: applicable_def)
qed

lemma not_applicable_after_apply_merges:
  "rng \<in> set ranges \<Longrightarrow> \<not> applicable (apply_merges s ranges) rng"
proof (induction ranges arbitrary: s)
  case Nil
  then show ?case by simp
next
  case (Cons r ranges)
  show ?case
  proof (cases "rng = r")
    case True
    have "\<not> applicable (merge_one s r) r" by (rule not_applicable_after_merge_one)
    moreover have "set (merges (merge_one s r)) \<subseteq> set (merges (apply_merges (merge_one s r) ranges))"
      by (rule merges_apply_merges_mono)
    ultimately have "\<not> applicable (apply_merges (merge_one s r) ranges) r"
      by (rule applicable_antimono [rotated])
    with True show ?thesis by simp
  next
    case False
    with Cons.prems have "rng \<in> set ranges" by simp
    then show ?thesis by (simp add: Cons.IH)
  qed
qed

lemma apply_merges_none_applicable:
  "(\<forall>rng \<in> set ranges. \<not> applicable s rng) \<Longrightarrow> apply_merges s ranges = s"
  by (induction ranges arbitrary: s) (simp_all add: merge_one_applicable)

text \<open>Applying the ranges a second time, after the values were written, changes nothing.\<close>

lemma apply_merges_again:
  assumes "merges s' = merges (apply_merges s ranges)"
  shows "apply_merges s' ranges = s'"
proof (rule apply_merges_none_applicable, rule ballI)
  fix rng assume "rng \<in> set ranges"
  then have "\<not> applicable (apply_merges s ranges) rng"
    by (rule not_applicable_after_apply_merges)
  then show "\<not> applicable s' rng"
    using applicable_cong [OF assms] by simp
qed

lemma applied_when_free:
  assumes colon: "CHR '':'' \<in> set r"
    and dec: "decode_range r = Some d"
    and free: "\<not> conflicts s d"
    and pre: "\<forall>r' d'. JStr r' \<in> set pre \<and> decode_range r' = Some d' \<longrightarrow> \<not> intersects d' d"
  shows "r \<in> set (merges (apply_merges s (pre @ JStr r # post)))"
proof -
  let ?s1 = "apply_merges s pre"
  have "\<not> conflicts ?s1 d"
  proof
    assume "conflicts ?s1 d"
    then obtain m d' where m: "m \<in> set (merges ?s1)" "decode_range m = Some d'" "intersects d' d"
      by (auto simp add: conflicts_def split: option.splits)
    from m(1) merges_apply_merges_upper [of s pre]
    have "m \<in> set (merges s) \<or> JStr m \<in> set pre" by auto
    then show False
    proof
      assume "m \<in> set (merges s)"
      with m(2,3) have "conflicts s d" by (blast intro: conflictsI)
      with free show False by contradiction
    next
      assume "JStr m \<in> set pre"
      with pre m(2,3) show False by blast
    qed
  qed
  with colon dec have "applicable ?s1 (JStr r)" by (simp add: applicable_def)
  then have "r \<in> set (merges (merge_one ?s1 (JStr r)))"
    by (simp add: merge_one_applicable)
  with merges_apply_merges_mono [of "merge_one ?s1 (JStr r)" post]
  show ?thesis by (auto simp add: apply_merges_append)
qed


text \<open>A worksheet with plain merges takes them all, and takes none of them twice.\<close>

lemma decode_range_colon: "decode_range r = Some d \<Longrightarrow> CHR '':'' \<in> set r"
proof (rule ccontr)
  assume d: "decode_range r = Some d" and "CHR '':'' \<notin> set r"
  then have "dropWhile (\<lambda>c. c \<noteq> CHR '':'') r = []" by auto
  with d show False by (simp add: decode_range_def)
qed

lemma mergeCells_again:
  assumes "r \<in> set (merges s)" and "decode_range r = Some d"
  shows "mergeCells s r = Inl MergeError"
proof -
  from assms(2) have "intersects d d" by (rule intersects_self)
  with assms have "conflicts s d" by (blast intro: conflictsI)
  with assms(2) show ?thesis by (simp add: mergeCells_def)
qed

lemma apply_merges_plain:
  assumes "list_all (\<lambda>r. decode_range r \<noteq> None) ms"
    and "disjoint_ranges ms"
    and "\<forall>r \<in> set ms. \<forall>d. decode_range r = Some d \<longrightarrow> \<not> conflicts s d"
  shows "merges (apply_merges s (map JStr ms)) = merges s @ ms"
  using assms
proof (induction ms arbitrary: s)
  case Nil
  then show ?case by simp
next
  case (Cons r ms)
  from Cons.prems(1) obtain d where d: "decode_range r = Some d" by auto
  with Cons.prems(3) have free: "\<not> conflicts s d" by simp
  let ?s1 = "s\<lparr>merges := merges s @ [r]\<rparr>"
  from d free have "applicable s (JStr r)"
    by (simp add: applicable_def decode_range_colon)
  then have step: "merge_one s (JStr r) = ?s1"
    by (simp add: merge_one_applicable)
  have "\<forall>r' \<in> set ms. \<forall>d'. decode_range r' = Some d' \<longrightarrow> \<not> conflicts ?s1 d'"
  proof (intro ballI allI impI)
    fix r' d'
    assume r': "r' \<in> set ms" and d': "decode_range r' = Some d'"
    from Cons.prems(2) r' have "\<not> overlap r r'" by (simp add: list_all_iff)
    with d d' have ni: "\<not> intersects d d'" by (simp add: overlap_def)
    from Cons.prems(3) r' d' have "\<not> conflicts s d'" by simp
    with ni d show "\<not> conflicts ?s1 d'"
      by (auto simp add: conflicts_def split: option.splits)
  qed
  moreover from Cons.prems(1) have "list_all (\<lambda>r. decode_range r \<noteq> None) ms" by simp
  moreover from Cons.prems(2) have "disjoint_ranges ms" by simp
  ultimately have "merges (apply_merges ?s1 (map JStr ms)) = merges ?s1 @ ms"
    by (intro Cons.IH)
  with step show ?case by simp
qed


section \<open>Sheet names\<close>

lemma row_number_snoc: "row_number (ds @ [c]) = 10 * row_number ds + (of_char c - 48)"
  by (simp add: row_number_def)

lemma of_char_digit_char: "d < 10 \<Longrightarrow> (of_char (digit_char d) :: nat) = 48 + d"
  by (simp add: digit_char_def)

lemma row_number_String_nat: "row_number (String_nat n) = n"
proof (induction n rule: String_nat.induct)
  case (1 n)
  show ?case
  proof (cases "n < 10")
    case True
    then show ?thesis
      by (simp add: String_nat.simps [of n] row_number_def of_char_digit_char)
  next
    case False
    with "1.IH" have "row_number (String_nat (n div 10)) = n div 10" by simp
    with False show ?thesis
      by (simp add: String_nat.simps [of n] row_number_snoc of_char_digit_char)
  qed
qed

lemma String_nat_inject: "String_nat i = String_nat j \<Longrightarrow> i = j"
  by (metis row_number_String_nat)

lemma sheet_name_inject [simp]: "sheet_name i = sheet_name j \<longleftrightarrow> i = j"
  by (auto simp add: sheet_name_def dest: String_nat_inject)


text \<open>Lower case leaves the digits of an index as they are.\<close>

lemma lower_digit_char: "d < 10 \<Longrightarrow> lower_char (digit_char d) = digit_char d"
  by (simp add: lower_char_def is_upper_def of_char_digit_char)

lemma toLowerCase_String_nat: "toLowerCase (String_nat n) = String_nat n"
proof (induction n rule: String_nat.induct)
  case (1 n)
  show ?case
  proof (cases "n < 10")
    case True
    then show ?thesis
      by (simp add: String_nat.simps [of n] toLowerCase_def lower_digit_char)
  next
    case False
    with "1.IH" have "toLowerCase (String_nat (n div 10)) = String_nat (n div 10)" by simp
    with False show ?thesis
      by (simp add: String_nat.simps [of n] toLowerCase_def lower_digit_char)
  qed
qed

lemma toLowerCase_append: "toLowerCase (a @ b) = toLowerCase a @ toLowerCase b"
  by (simp add: toLowerCase_def)

lemma toLowerCase_sheet_name: "toLowerCase (sheet_name i) = ''stt-'' @ String_nat i"
proof -
  have "toLowerCase ''STT-'' = ''stt-''" by code_simp
  then show ?thesis
    by (simp only: sheet_name_def toLowerCase_append toLowerCase_String_nat)
qed

lemma toLowerCase_sheet_name_inject [simp]:
  "toLowerCase (sheet_name i) = toLowerCase (sheet_name j) \<longleftrightarrow> i = j"
  by (auto simp add: toLowerCase_sheet_name dest: String_nat_inject)


section \<open>The workbook along the loop\<close>

lemma getWorksheet_Cons:
  "getWorksheet (s # wb) n = (if name s = n then Some s else getWorksheet wb n)"
  by (simp add: getWorksheet_def)

lemma getWorksheet_None_iff: "getWorksheet wb n = None \<longleftrightarrow> n \<notin> name ` set wb"
  by (auto simp add: getWorksheet_def find_None_iff)

lemma getWorksheet_SomeD: "getWorksheet wb n = Some s \<Longrightarrow> s \<in> set wb \<and> name s = n"
  by (auto simp add: getWorksheet_def find_Some_iff)

lemma getWorksheet_append:
  "getWorksheet (a @ b) n = (case getWorksheet a n of Some s \<Rightarrow> Some s | None \<Rightarrow> getWorksheet b n)"
  by (induction a) (simp_all add: getWorksheet_Cons, simp add: getWorksheet_def)

lemma names_remove_existing:
  "map name (remove_existing wb n) = remove1 n (map name wb)"
proof (induction wb)
  case Nil
  then show ?case by (simp add: remove_existing_def getWorksheet_def)
next
  case (Cons s wb)
  show ?case
  proof (cases "name s = n")
    case True
    then show ?thesis
      by (simp add: remove_existing_def getWorksheet_Cons removeWorksheet_def)
  next
    case False
    show ?thesis
    proof (cases "getWorksheet wb n")
      case None
      with False show ?thesis
        using Cons.IH by (simp add: remove_existing_def getWorksheet_Cons)
    next
      case (Some ex)
      then have "name ex = n" by (simp add: getWorksheet_SomeD)
      with False have "s \<noteq> ex" by auto
      with False Some show ?thesis
        using Cons.IH by (simp add: remove_existing_def getWorksheet_Cons removeWorksheet_def)
    qed
  qed
qed

lemma remove_existing_append:
  assumes "n \<notin> name ` set b"
  shows "remove_existing (a @ b) n = remove_existing a n @ b"
proof (cases "getWorksheet a n")
  case None
  moreover from assms have "getWorksheet b n = None" by (simp add: getWorksheet_None_iff)
  ultimately show ?thesis
    by (simp add: remove_existing_def getWorksheet_append)
next
  case (Some ex)
  then have "ex \<in> set a" by (simp add: getWorksheet_SomeD)
  with Some show ?thesis
    by (simp add: remove_existing_def getWorksheet_append removeWorksheet_def remove1_append)
qed

lemma set_remove_existing: "set (remove_existing wb n) \<subseteq> set wb"
  using set_remove1_subset [of _ wb]
  by (auto simp add: remove_existing_def removeWorksheet_def split: option.splits)


lemma set_foldl_remove_existing: "set (foldl remove_existing wb ns) \<subseteq> set wb"
proof (induction ns arbitrary: wb)
  case Nil
  then show ?case by simp
next
  case (Cons n ns)
  have "set (foldl remove_existing (remove_existing wb n) ns) \<subseteq> set (remove_existing wb n)"
    by (rule Cons.IH)
  also have "\<dots> \<subseteq> set wb" by (rule set_remove_existing)
  finally show ?case by simp
qed

lemma distinct_remove_existing:
  assumes "distinct (map name wb)"
  shows "distinct (map name (remove_existing wb n)) \<and> n \<notin> name ` set (remove_existing wb n)"
proof -
  have n: "map name (remove_existing wb n) = remove1 n (map name wb)"
    by (rule names_remove_existing)
  from assms have "distinct (remove1 n (map name wb))" by simp
  moreover from assms have "n \<notin> set (remove1 n (map name wb))" by simp
  ultimately show ?thesis
    unfolding n [symmetric] by simp
qed

text \<open>The worksheets that are left of the template's workbook, and the clones.\<close>

lemma name_write_item [simp]: "name (write_item s item) = name s"
  by (simp add: write_item_def Let_def)

lemma merges_write_item [simp]: "merges (write_item s item) = merges s"
  by (simp add: write_item_def Let_def)

lemma name_clone_of [simp]: "name (clone_of formSheet i x) = sheet_name i"
  by (simp add: clone_of_def new_sheet_def)

lemma js_or_not_nullish: "\<not> nullish (js_or x (JObj []))"
  by (cases x) (simp_all add: js_or_def)

text \<open>Applying the ranges once more after the writes changes nothing, so a turn leaves \<open>clone_of\<close>.\<close>

lemma clone_sheet_clone_of:
  "clone_sheet formSheet (getMergeRanges formSheet) (new_sheet (sheet_name i)) (js_or x (JObj []))
     = Inr (clone_of formSheet i x)"
proof -
  let ?merged = "apply_merges (copy_cells formSheet (new_sheet (sheet_name i)) (cells formSheet))
                   (getMergeRanges formSheet)"
  let ?filled = "write_item ?merged (js_or x (JObj []))"
  have "merges ?filled = merges ?merged" by simp
  then have "apply_merges ?filled (getMergeRanges formSheet) = ?filled"
    by (rule apply_merges_again)
  then show ?thesis
    by (simp add: clone_sheet_def fill_item_def js_or_not_nullish clone_of_def Let_def)
qed

lemma clone_step_cases:
  "clone_step formSheet (getMergeRanges formSheet) wb i x =
     (if \<exists>s \<in> set (remove_existing wb (sheet_name i)).
           toLowerCase (name s) = toLowerCase (sheet_name i)
      then Inl (NameExists (sheet_name i))
      else Inr (remove_existing wb (sheet_name i) @ [clone_of formSheet i x]))"
  by (simp add: clone_step_def addWorksheet_def clone_sheet_clone_of Let_def)

text \<open>
  The loop on a workbook \<open>a @ b\<close>, where \<open>b\<close> holds the clones made so far: when it returns,
  it has removed from \<open>a\<close>, for each index, the worksheet of that name, and has added the
  clones; no worksheet that is left of \<open>a\<close> has the name of a clone.
\<close>

lemma clone_loop_shape:
  assumes "\<forall>s \<in> set b. \<forall>j \<ge> i. toLowerCase (name s) \<noteq> toLowerCase (sheet_name j)"
    and "clone_loop formSheet (getMergeRanges formSheet) (a @ b) i xs = Inr wb'"
  shows "wb' = foldl remove_existing a (map sheet_name [i ..< i + length xs])
               @ b @ map (\<lambda>(j, x). clone_of formSheet j x) (enumerate i xs)
         \<and> (\<forall>k < length xs.
               sheet_name (i + k)
                 \<notin> name ` set (foldl remove_existing a (map sheet_name [i ..< i + length xs])))"
  using assms
proof (induction xs arbitrary: a b i)
  case Nil
  then show ?case by simp
next
  case (Cons x xs)
  let ?n = "sheet_name i"
  let ?c = "clone_of formSheet i x"
  let ?a1 = "remove_existing a ?n"
  have nb: "?n \<notin> name ` set b"
  proof
    assume "?n \<in> name ` set b"
    then obtain s where "s \<in> set b" "name s = ?n" by auto
    moreover have "i \<le> i" by simp
    ultimately show False using Cons.prems(1) by metis
  qed
  then have rem: "remove_existing (a @ b) ?n = ?a1 @ b"
    by (rule remove_existing_append)
  from Cons.prems(2) obtain w1 where
    step: "clone_step formSheet (getMergeRanges formSheet) (a @ b) i x = Inr w1"
    and rest: "clone_loop formSheet (getMergeRanges formSheet) w1 (Suc i) xs = Inr wb'"
    by (auto split: sum.splits)
  from step have free: "\<forall>s \<in> set (?a1 @ b). toLowerCase (name s) \<noteq> toLowerCase ?n"
    and w1: "w1 = ?a1 @ (b @ [?c])"
    by (auto simp add: clone_step_cases rem split: if_splits)
  from free have na1: "?n \<notin> name ` set ?a1" by auto
  have inv: "\<forall>s \<in> set (b @ [?c]). \<forall>j \<ge> Suc i. toLowerCase (name s) \<noteq> toLowerCase (sheet_name j)"
    using Cons.prems(1) by auto
  from rest have rest': "clone_loop formSheet (getMergeRanges formSheet) (?a1 @ (b @ [?c])) (Suc i) xs = Inr wb'"
    by (simp only: w1)
  note IH = Cons.IH [OF inv rest']
  have up: "[i ..< i + length (x # xs)] = i # [Suc i ..< Suc i + length xs]"
    by (simp add: upt_rec)
  let ?a' = "foldl remove_existing ?a1 (map sheet_name [Suc i ..< Suc i + length xs])"
  have kept: "foldl remove_existing a (map sheet_name [i ..< i + length (x # xs)]) = ?a'"
    by (simp only: up) simp
  from IH have shape: "wb' = ?a' @ b @ map (\<lambda>(j, x). clone_of formSheet j x) (enumerate i (x # xs))"
    by simp
  have none: "\<forall>k < length (x # xs). sheet_name (i + k) \<notin> name ` set ?a'"
  proof (intro allI impI)
    fix k assume k: "k < length (x # xs)"
    show "sheet_name (i + k) \<notin> name ` set ?a'"
    proof (cases k)
      case 0
      have "set ?a' \<subseteq> set ?a1" by (rule set_foldl_remove_existing)
      with na1 0 show ?thesis by auto
    next
      case (Suc k')
      with k have "k' < length xs" by simp
      with IH have "sheet_name (Suc i + k') \<notin> name ` set ?a'" by blast
      with Suc show ?thesis by simp
    qed
  qed
  from shape none show ?case by (simp only: kept)
qed

text \<open>When the names leave room, no turn of the loop throws.\<close>

lemma clone_loop_returns:
  assumes "\<forall>s \<in> set b. \<forall>j \<ge> i. toLowerCase (name s) \<noteq> toLowerCase (sheet_name j)"
    and "distinct (map name a)"
    and "\<forall>s \<in> set a. \<forall>k < length xs.
           toLowerCase (name s) = toLowerCase (sheet_name (i + k)) \<longrightarrow> name s = sheet_name (i + k)"
  shows "\<exists>wb'. clone_loop formSheet (getMergeRanges formSheet) (a @ b) i xs = Inr wb'"
  using assms
proof (induction xs arbitrary: a b i)
  case Nil
  then show ?case by simp
next
  case (Cons x xs)
  let ?n = "sheet_name i"
  let ?c = "clone_of formSheet i x"
  let ?a1 = "remove_existing a ?n"
  have nb: "?n \<notin> name ` set b"
  proof
    assume "?n \<in> name ` set b"
    then obtain s where "s \<in> set b" "name s = ?n" by auto
    moreover have "i \<le> i" by simp
    ultimately show False using Cons.prems(1) by metis
  qed
  then have rem: "remove_existing (a @ b) ?n = ?a1 @ b"
    by (rule remove_existing_append)
  from distinct_remove_existing [OF Cons.prems(2), of ?n]
  have d1: "distinct (map name ?a1)" and na1: "?n \<notin> name ` set ?a1" by blast+
  have sub: "set ?a1 \<subseteq> set a" by (rule set_remove_existing)
  have free: "\<forall>s \<in> set (?a1 @ b). toLowerCase (name s) \<noteq> toLowerCase ?n"
  proof
    fix s assume "s \<in> set (?a1 @ b)"
    then consider "s \<in> set ?a1" | "s \<in> set b" by auto
    then show "toLowerCase (name s) \<noteq> toLowerCase ?n"
    proof cases
      case 1
      with na1 have ne: "name s \<noteq> ?n" by (metis imageI)
      from 1 sub have "s \<in> set a" by auto
      with Cons.prems(3) have "toLowerCase (name s) = toLowerCase (sheet_name (i + 0)) \<longrightarrow>
                                 name s = sheet_name (i + 0)"
        by (metis length_greater_0_conv list.distinct(1))
      with ne show ?thesis by simp
    next
      case 2
      moreover have "i \<le> i" by simp
      ultimately show ?thesis using Cons.prems(1) by metis
    qed
  qed
  then have step: "clone_step formSheet (getMergeRanges formSheet) (a @ b) i x
                     = Inr (?a1 @ (b @ [?c]))"
    by (simp add: clone_step_cases rem)
  have inv: "\<forall>s \<in> set (b @ [?c]). \<forall>j \<ge> Suc i. toLowerCase (name s) \<noteq> toLowerCase (sheet_name j)"
    using Cons.prems(1) by auto
  have P: "\<forall>s \<in> set ?a1. \<forall>k < length xs.
             toLowerCase (name s) = toLowerCase (sheet_name (Suc i + k))
               \<longrightarrow> name s = sheet_name (Suc i + k)"
  proof (intro ballI allI impI)
    fix s k
    assume s: "s \<in> set ?a1" and k: "k < length xs"
      and l: "toLowerCase (name s) = toLowerCase (sheet_name (Suc i + k))"
    from s sub have "s \<in> set a" by auto
    moreover from k have "Suc k < length (x # xs)" by simp
    moreover from l have "toLowerCase (name s) = toLowerCase (sheet_name (i + Suc k))" by simp
    ultimately have "name s = sheet_name (i + Suc k)" using Cons.prems(3) by blast
    then show "name s = sheet_name (Suc i + k)" by simp
  qed
  from Cons.IH [OF inv d1 P] step show ?case by simp
qed


section \<open>A run of the cloner\<close>

lemma names_free_iff:
  "names_free wb n \<longleftrightarrow>
     distinct (map name wb)
     \<and> (\<forall>s \<in> set wb. \<forall>k < n. toLowerCase (name s) = toLowerCase (sheet_name k)
                                  \<longrightarrow> name s = sheet_name k)"
  by (auto simp add: names_free_def list_all_iff)

lemma clones_by_index:
  "map (\<lambda>(j, x). F j x) (enumerate 0 xs) = map (\<lambda>i. F i (xs ! i)) [0 ..< length xs]"
  by (rule nth_equalityI) (simp_all add: nth_enumerate_eq)

lemma createCopies_loop:
  assumes "files (template_path e opts) = Some wb"
    and "getWorksheet wb (form_name opts) = Some formSheet"
  shows "createCopiesFromTemplateAll e files dataArray outFilename opts =
           (case clone_loop formSheet (getMergeRanges formSheet) wb 0 dataArray of
              Inl err \<Rightarrow> Inl err
            | Inr wb' \<Rightarrow>
                Inr (path_join (path_join (dirname e) ''out'')
                       (case outFilename of None \<Rightarrow> ''template-all-filled.xlsx'' | Some f \<Rightarrow> f),
                     files(path_join (path_join (dirname e) ''out'')
                             (case outFilename of None \<Rightarrow> ''template-all-filled.xlsx'' | Some f \<Rightarrow> f)
                           \<mapsto> wb')))"
  using assms
  by (simp add: createCopiesFromTemplateAll_def template_path_def form_name_def Let_def
        split: sum.splits)

lemma createCopies_InrD:
  assumes "createCopiesFromTemplateAll e files dataArray outFilename opts = Inr (outPath, files')"
  shows "\<exists>wb formSheet. files (template_path e opts) = Some wb
                         \<and> getWorksheet wb (form_name opts) = Some formSheet"
  using assms
  by (auto simp add: createCopiesFromTemplateAll_def template_path_def form_name_def Let_def
        split: option.splits)

text \<open>The workbook that a run writes, when it returns.\<close>

lemma run_shape:
  assumes "files (template_path e opts) = Some wb"
    and "getWorksheet wb (form_name opts) = Some formSheet"
    and "createCopiesFromTemplateAll e files dataArray outFilename opts = Inr (outPath, files')"
  shows "files' outPath =
           Some (foldl remove_existing wb (map sheet_name [0 ..< length dataArray])
                 @ map (\<lambda>i. clone_of formSheet i (dataArray ! i)) [0 ..< length dataArray])
         \<and> (\<forall>k < length dataArray.
               sheet_name k
                 \<notin> name ` set (foldl remove_existing wb (map sheet_name [0 ..< length dataArray])))"
proof -
  let ?out = "path_join (path_join (dirname e) ''out'')
                (case outFilename of None \<Rightarrow> ''template-all-filled.xlsx'' | Some f \<Rightarrow> f)"
  from assms(3) obtain wb' where
    loop: "clone_loop formSheet (getMergeRanges formSheet) wb 0 dataArray = Inr wb'"
    and res: "outPath = ?out" "files' = files(?out \<mapsto> wb')"
    unfolding createCopies_loop [where files = files and dataArray = dataArray
        and outFilename = outFilename, OF assms(1,2)] by (auto split: sum.splits)
  have inv: "\<forall>s \<in> set []. \<forall>j \<ge> 0. toLowerCase (name s) \<noteq> toLowerCase (sheet_name j)"
    by simp
  from loop have loop': "clone_loop formSheet (getMergeRanges formSheet) (wb @ []) 0 dataArray = Inr wb'"
    by simp
  from clone_loop_shape [OF inv loop']
  have shape: "wb' = foldl remove_existing wb (map sheet_name [0 ..< length dataArray])
                     @ map (\<lambda>(j, x). clone_of formSheet j x) (enumerate 0 dataArray)"
    and none: "\<forall>k < length dataArray.
                 sheet_name k
                   \<notin> name ` set (foldl remove_existing wb (map sheet_name [0 ..< length dataArray]))"
    by simp_all
  have "map (\<lambda>(j, x). clone_of formSheet j x) (enumerate 0 dataArray)
          = map (\<lambda>i. clone_of formSheet i (dataArray ! i)) [0 ..< length dataArray]"
    by (rule clones_by_index)
  with shape have "wb' = foldl remove_existing wb (map sheet_name [0 ..< length dataArray])
                         @ map (\<lambda>i. clone_of formSheet i (dataArray ! i)) [0 ..< length dataArray]"
    by (simp only:)
  with res none show ?thesis by simp
qed

text \<open>A run returns when the template and its source sheet exist and the names leave room.\<close>

lemma run_returns:
  assumes "files (template_path e opts) = Some wb"
    and "getWorksheet wb (form_name opts) = Some formSheet"
    and "names_free wb (length dataArray)"
  shows "\<exists>outPath files'.
           createCopiesFromTemplateAll e files dataArray outFilename opts = Inr (outPath, files')"
proof -
  have inv: "\<forall>s \<in> set []. \<forall>j \<ge> 0. toLowerCase (name s) \<noteq> toLowerCase (sheet_name j)"
    by simp
  from assms(3) have d: "distinct (map name wb)"
    and c: "\<forall>s \<in> set wb. \<forall>k < length dataArray.
              toLowerCase (name s) = toLowerCase (sheet_name (0 + k)) \<longrightarrow> name s = sheet_name (0 + k)"
    by (simp_all add: names_free_iff)
  from clone_loop_returns [OF inv d c, of formSheet]
  obtain wb' where "clone_loop formSheet (getMergeRanges formSheet) wb 0 dataArray = Inr wb'"
    by auto
  then show ?thesis
    unfolding createCopies_loop [where files = files and dataArray = dataArray
        and outFilename = outFilename, OF assms(1,2)] by simp
qed

text \<open>The only errors of the loop are those of \<^verbatim>\<open>addWorksheet\<close>.\<close>

lemma clone_loop_error:
  "clone_loop formSheet (getMergeRanges formSheet) wb i xs = Inl err
     \<Longrightarrow> \<exists>k < length xs. err = NameExists (sheet_name (i + k))"
proof (induction xs arbitrary: wb i)
  case Nil
  then show ?case by simp
next
  case (Cons x xs)
  show ?case
  proof (cases "clone_step formSheet (getMergeRanges formSheet) wb i x")
    case (Inl err')
    with Cons.prems have "err = err'" by simp
    with Inl have "err = NameExists (sheet_name (i + 0))"
      by (auto simp add: clone_step_cases split: if_splits)
    then show ?thesis by (intro exI [of _ 0]) simp
  next
    case (Inr wb1)
    with Cons.prems have "clone_loop formSheet (getMergeRanges formSheet) wb1 (Suc i) xs = Inl err"
      by simp
    from Cons.IH [OF this] obtain k where "k < length xs" "err = NameExists (sheet_name (Suc i + k))"
      by blast
    then show ?thesis by (intro exI [of _ "Suc k"]) simp
  qed
qed

lemma run_error_cases:
  assumes "run_error (createCopiesFromTemplateAll e files dataArray outFilename opts) = Some err"
  shows "err = NotFound (template_path e opts) \<or> err = MissingSheet (form_name opts)
         \<or> (\<exists>k < length dataArray. err = NameExists (sheet_name k))"
proof (cases "files (template_path e opts)")
  case None
  with assms show ?thesis
    by (simp add: run_error_def createCopiesFromTemplateAll_def template_path_def Let_def)
next
  case (Some wb)
  show ?thesis
  proof (cases "getWorksheet wb (form_name opts)")
    case None
    with Some assms show ?thesis
      by (simp add: run_error_def createCopiesFromTemplateAll_def template_path_def
            form_name_def Let_def)
  next
    case f: (Some formSheet)
    from assms have "clone_loop formSheet (getMergeRanges formSheet) wb 0 dataArray = Inl err"
      unfolding createCopies_loop [where files = files and dataArray = dataArray
          and outFilename = outFilename, OF Some f] by (simp add: run_error_def split: sum.splits)
    from clone_loop_error [OF this] show ?thesis by simp
  qed
qed

text \<open>The names in the written workbook.\<close>

lemma names_foldl_remove_existing:
  "map name (foldl remove_existing wb ns) = foldl (\<lambda>ms n. remove1 n ms) (map name wb) ns"
  by (induction ns arbitrary: wb) (simp_all add: names_remove_existing)

lemma set_foldl_remove1:
  "distinct ms \<Longrightarrow> set (foldl (\<lambda>ms n. remove1 n ms) ms ns) = set ms - set ns
                    \<and> distinct (foldl (\<lambda>ms n. remove1 n ms) ms ns)"
  by (induction ns arbitrary: ms) (auto simp add: set_remove1_eq)

lemma distinct_sheet_names: "distinct (map sheet_name [i ..< j])"
  by (simp add: distinct_map inj_on_def)

lemma names_clones:
  "map name (map (\<lambda>i. clone_of formSheet i (g i)) is) = map sheet_name is"
  by simp

lemma getWorksheet_clone:
  assumes "i < n"
  shows "getWorksheet (map (\<lambda>i. clone_of formSheet i (g i)) [k ..< k + n]) (sheet_name (k + i))
           = Some (clone_of formSheet (k + i) (g (k + i)))"
  using assms
proof (induction n arbitrary: k i)
  case 0
  then show ?case by simp
next
  case (Suc n)
  have up: "[k ..< k + Suc n] = k # [Suc k ..< Suc k + n]" by (simp add: upt_rec)
  show ?case
  proof (cases i)
    case 0
    then show ?thesis by (simp only: up) (simp add: getWorksheet_Cons)
  next
    case (Suc i')
    with Suc.prems have "i' < n" by simp
    from Suc.IH [OF this, of "Suc k"] Suc show ?thesis
      by (simp only: up) (simp add: getWorksheet_Cons)
  qed
qed

text \<open>The worksheet found under the name \<open>STT-i\<close> in the output is the clone of index \<open>i\<close>.\<close>

lemma output_sheet_clone:
  assumes "files (template_path e opts) = Some wb"
    and "getWorksheet wb (form_name opts) = Some formSheet"
    and "createCopiesFromTemplateAll e files dataArray outFilename opts = Inr (outPath, files')"
    and "i < length dataArray"
  shows "output_sheet (createCopiesFromTemplateAll e files dataArray outFilename opts) (sheet_name i)
           = Some (clone_of formSheet i (dataArray ! i))"
proof -
  let ?kept = "foldl remove_existing wb (map sheet_name [0 ..< length dataArray])"
  let ?clones = "map (\<lambda>i. clone_of formSheet i (dataArray ! i)) [0 ..< 0 + length dataArray]"
  from run_shape [where files = files, OF assms(1-3)]
  have out: "files' outPath = Some (?kept @ ?clones)"
    and kept: "\<forall>k < length dataArray. sheet_name k \<notin> name ` set ?kept"
    by simp_all
  from kept assms(4) have "getWorksheet ?kept (sheet_name i) = None"
    by (simp add: getWorksheet_None_iff)
  moreover have "getWorksheet ?clones (sheet_name (0 + i))
                   = Some (clone_of formSheet (0 + i) (dataArray ! (0 + i)))"
    using assms(4) by (rule getWorksheet_clone)
  ultimately have "getWorksheet (?kept @ ?clones) (sheet_name i)
                     = Some (clone_of formSheet i (dataArray ! i))"
    by (simp add: getWorksheet_append)
  then show ?thesis
    by (simp add: output_sheet_def assms(3) out)
qed

text \<open>The merges of a clone.\<close>

lemma merges_clone_of:
  "merges (clone_of formSheet i x)
     = merges (apply_merges (copy_cells formSheet (new_sheet (sheet_name i)) (cells formSheet))
                 (getMergeRanges formSheet))"
  by (simp add: clone_of_def)

lemma merges_clone_of_plain:
  assumes "plain_merges formSheet"
  shows "merges (clone_of formSheet i x) = merges formSheet"
proof -
  let ?copied = "copy_cells formSheet (new_sheet (sheet_name i)) (cells formSheet)"
  have m: "merges ?copied = []" by (simp add: new_sheet_def)
  then have free: "\<forall>r \<in> set (merges formSheet). \<forall>d. decode_range r = Some d \<longrightarrow> \<not> conflicts ?copied d"
    by (simp add: conflicts_def)
  from assms have "list_all (\<lambda>r. decode_range r \<noteq> None) (merges formSheet)"
    and "disjoint_ranges (merges formSheet)"
    by (simp_all add: plain_merges_def)
  then have "merges (apply_merges ?copied (map JStr (merges formSheet)))
               = merges ?copied @ merges formSheet"
    using free by (rule apply_merges_plain)
  with m show ?thesis
    by (simp add: merges_clone_of getMergeRanges_def)
qed

lemma mergeCells_clone_of_plain:
  assumes "plain_merges formSheet" and "r \<in> set (merges formSheet)"
  shows "mergeCells (clone_of formSheet i x) r = Inl MergeError"
proof -
  from assms have "decode_range r \<noteq> None"
    by (simp add: plain_merges_def list_all_iff)
  then obtain d where d: "decode_range r = Some d" by blast
  from assms have "r \<in> set (merges (clone_of formSheet i x))"
    by (simp add: merges_clone_of_plain)
  then show ?thesis using d by (rule mergeCells_again)
qed

text \<open>Reading back what was written.\<close>

lemma read_value_setCell:
  "read_value (setCellValueKeepingMerge s a v) b =
     (if master_of s b = master_of s a then v else read_value s b)"
  by (simp add: read_value_def getCell_setCell)

lemma master_of_write_item [simp]: "master_of (write_item s item) a = master_of s a"
  by (rule master_of_cong) simp

lemma read_write_item:
  assumes "distinct (map (master_of s) [C6, C7, C8, C9, C10, F6])"
  shows "read_value (write_item s item) C6 = coalesce (get_prop item ''name'') (JStr '''')"
    and "read_value (write_item s item) C7 =
           coalesce (coalesce (get_prop item ''year'') (get_prop item ''name2'')) (JStr '''')"
    and "read_value (write_item s item) C8 = coalesce (get_prop item ''school'') (JStr '''')"
    and "read_value (write_item s item) C9 = coalesce (get_prop item ''address'') (JStr '''')"
    and "read_value (write_item s item) C10 = coalesce (get_prop item ''address2'') (JStr '''')"
    and "read_value (write_item s item) F6 = JStr class_label"
  using assms by (simp_all add: write_item_def Let_def read_value_setCell)


section \<open>Clones are named by index\<close>

text \<open>
  Claim C2, as amended. The claim holds when the names of the template's worksheets leave
  room for the clones: they are distinct, and none of them equals a name \<open>STT-i\<close> of a clone
  up to the case of its letters without being that name. Then, for \<open>N\<close> records, the run
  returns, and the written workbook is the template's workbook, from which for each index
  the worksheet named \<open>STT-i\<close> (if there is one) was removed, followed by exactly \<open>N\<close> new
  worksheets named \<open>STT-0\<close> to \<open>STT-(N-1)\<close>, in this order. The names in the output are
  distinct, so a worksheet \<open>STT-i\<close> of the template is replaced, not duplicated, and they
  leave room again, so the same holds of a run on the output.
\<close>

theorem clones_named_by_index:
  assumes "files (template_path e opts) = Some wb"
    and "getWorksheet wb (form_name opts) = Some formSheet"
    and "names_free wb (length dataArray)"
  shows "\<exists>outPath files' kept clones.
           createCopiesFromTemplateAll e files dataArray outFilename opts = Inr (outPath, files')
           \<and> files' outPath = Some (kept @ clones)
           \<and> length clones = length dataArray
           \<and> map name clones = map (\<lambda>i. ''STT-'' @ String_nat i) [0 ..< length dataArray]
           \<and> kept = foldl remove_existing wb (map sheet_name [0 ..< length dataArray])
           \<and> map name kept = foldl (\<lambda>ms n. remove1 n ms) (map name wb)
                                (map sheet_name [0 ..< length dataArray])
           \<and> distinct (map name (kept @ clones))
           \<and> set (map name kept) = set (map name wb) - sheet_name ` {0 ..< length dataArray}
           \<and> names_free (kept @ clones) (length dataArray)"
proof -
  let ?ns = "map sheet_name [0 ..< length dataArray]"
  let ?kept = "foldl remove_existing wb ?ns"
  let ?clones = "map (\<lambda>i. clone_of formSheet i (dataArray ! i)) [0 ..< length dataArray]"
  from run_returns [where files = files and dataArray = dataArray and outFilename = outFilename,
      OF assms]
  obtain outPath files' where
    run: "createCopiesFromTemplateAll e files dataArray outFilename opts = Inr (outPath, files')"
    by blast
  from run_shape [where files = files, OF assms(1,2) run]
  have written: "files' outPath = Some (?kept @ ?clones)" by simp
  have len: "length ?clones = length dataArray" by simp
  have cn: "map name ?clones = ?ns" by (rule names_clones)
  have sn: "sheet_name = (\<lambda>i. ''STT-'' @ String_nat i)"
    by (rule ext) (simp add: sheet_name_def)
  from cn have cn': "map name ?clones = map (\<lambda>i. ''STT-'' @ String_nat i) [0 ..< length dataArray]"
    by (simp only: sn)
  have kn: "map name ?kept = foldl (\<lambda>ms n. remove1 n ms) (map name wb) ?ns"
    by (rule names_foldl_remove_existing)
  from assms(3) have d: "distinct (map name wb)"
    and free: "\<forall>s \<in> set wb. \<forall>k < length dataArray.
                 toLowerCase (name s) = toLowerCase (sheet_name k) \<longrightarrow> name s = sheet_name k"
    by (simp_all add: names_free_iff)
  from set_foldl_remove1 [OF d, of ?ns]
  have k: "set (map name ?kept) = set (map name wb) - set ?ns" "distinct (map name ?kept)"
    by (simp_all only: kn)
  have "distinct (map name ?clones)"
    by (simp only: cn distinct_sheet_names)
  moreover from k(1) have "set (map name ?kept) \<inter> set (map name ?clones) = {}"
    by (simp only: cn) blast
  ultimately have dist: "distinct (map name (?kept @ ?clones))"
    using k(2) by (simp only: map_append distinct_append)
  from k(1) have ks: "set (map name ?kept) = set (map name wb) - sheet_name ` {0 ..< length dataArray}"
    by simp
  have again: "names_free (?kept @ ?clones) (length dataArray)"
  proof -
    have "\<forall>s \<in> set (?kept @ ?clones). \<forall>k < length dataArray.
            toLowerCase (name s) = toLowerCase (sheet_name k) \<longrightarrow> name s = sheet_name k"
    proof (intro ballI allI impI)
      fix s k
      assume s: "s \<in> set (?kept @ ?clones)" and kl: "k < length dataArray"
        and l: "toLowerCase (name s) = toLowerCase (sheet_name k)"
      from s consider "s \<in> set ?kept" | "s \<in> set ?clones" by auto
      then show "name s = sheet_name k"
      proof cases
        case 1
        have "set ?kept \<subseteq> set wb" by (rule set_foldl_remove_existing)
        with 1 have "s \<in> set wb" by auto
        with free kl l show ?thesis by blast
      next
        case 2
        then obtain j where "name s = sheet_name j" by auto
        with l show ?thesis by simp
      qed
    qed
    with dist show ?thesis by (simp only: names_free_iff)
  qed
  have kp: "?kept = foldl remove_existing wb ?ns" by (rule refl)
  from run written len cn' kp kn dist ks again show ?thesis
    by (intro exI [of _ outPath] exI [of _ files'] exI [of _ ?kept] exI [of _ ?clones] conjI)
qed

theorem clones_named_by_index_witness:
  "\<exists>outPath files' wb'.
     createCopiesFromTemplateAll \<lparr>dirname = ''/app'', cwd = ''/home''\<rparr>
       [''/app/template-all.xlsx'' \<mapsto>
          [\<lparr>name = ''form'', cells = [], merges = []\<rparr>,
           \<lparr>name = ''STT-0'', cells = [((1, 1), \<lparr>cvalue = JStr ''stale'', cstyle = JObj []\<rparr>)], merges = []\<rparr>]]
       [JObj [(''name'', JStr ''A'')], JObj [(''name'', JStr ''B'')]] None
       \<lparr>opt_templateFile = None, opt_formSheetName = None\<rparr> = Inr (outPath, files')
     \<and> files' outPath = Some wb'
     \<and> map name wb' = [''form'', ''STT-0'', ''STT-1'']
     \<and> distinct (map name wb')"
proof -
  let ?e = "\<lparr>dirname = ''/app'', cwd = ''/home''\<rparr>"
  let ?form = "\<lparr>name = ''form'', cells = [], merges = []\<rparr>"
  let ?wb = "[?form,
              \<lparr>name = ''STT-0'', cells = [((1, 1), \<lparr>cvalue = JStr ''stale'', cstyle = JObj []\<rparr>)],
                 merges = []\<rparr>]"
  let ?files = "[''/app/template-all.xlsx'' \<mapsto> ?wb]"
  let ?data = "[JObj [(''name'', JStr ''A'')], JObj [(''name'', JStr ''B'')]]"
  let ?opts = "\<lparr>opt_templateFile = None, opt_formSheetName = None\<rparr>"
  have h1: "?files (template_path ?e ?opts) = Some ?wb"
    by (simp add: template_path_def path_join_def opt_or_def)
  have h2: "getWorksheet ?wb (form_name ?opts) = Some ?form"
    by (simp add: form_name_def opt_or_def getWorksheet_def)
  have h3: "names_free ?wb (length ?data)"
    by code_simp
  have names: "map sheet_name [0 ..< length ?data] = [''STT-0'', ''STT-1'']"
    by code_simp
  from clones_named_by_index [of ?files ?e ?opts ?wb ?form ?data None, OF h1 h2 h3]
  obtain outPath files' kept clones where
    r: "createCopiesFromTemplateAll ?e ?files ?data None ?opts = Inr (outPath, files')"
       "files' outPath = Some (kept @ clones)"
       "map name clones = map (\<lambda>i. ''STT-'' @ String_nat i) [0 ..< length ?data]"
       "map name kept = foldl (\<lambda>ms n. remove1 n ms) (map name ?wb)
                          (map sheet_name [0 ..< length ?data])"
       "distinct (map name (kept @ clones))"
    by blast
  from r(3) have c: "map name clones = [''STT-0'', ''STT-1'']"
    using names by (simp add: sheet_name_def)
  from r(4) have k: "map name kept = [''form'']"
    by (simp only: names) simp
  from c k have n: "map name (kept @ clones) = [''form'', ''STT-0'', ''STT-1'']" by simp
  from r(1,2) n r(5) show ?thesis
    by (intro exI [of _ outPath] exI [of _ files'] exI [of _ "kept @ clones"] conjI)
qed

text \<open>
  The claim as it was stated fails on a template that holds, beside the source sheet, a
  worksheet named \<open>stt-0\<close>: it is not the worksheet \<open>STT-0\<close>, so it is not removed, and the
  library refuses to add \<open>STT-0\<close> beside it. The run throws and writes nothing.
\<close>

theorem clones_named_by_index_counterexample:
  "run_error
     (createCopiesFromTemplateAll \<lparr>dirname = ''/app'', cwd = ''/home''\<rparr>
        [''/app/template-all.xlsx'' \<mapsto>
           [\<lparr>name = ''form'', cells = [], merges = []\<rparr>,
            \<lparr>name = ''stt-0'', cells = [], merges = []\<rparr>]]
        [JObj [(''name'', JStr ''A'')], JObj [(''name'', JStr ''B'')]] None
        \<lparr>opt_templateFile = None, opt_formSheetName = None\<rparr>)
   = Some (NameExists ''STT-0'')"
  by code_simp


section \<open>Failures of single merges\<close>

lemma merge_one_failed: "mergeCells s r = Inl err \<Longrightarrow> merge_one s (JStr r) = s"
  by (simp add: merge_one_def)

lemma merges_merge_one_cong:
  assumes "merges s = merges s'"
  shows "merges (merge_one s rng) = merges (merge_one s' rng)"
proof (cases rng)
  case (JStr r)
  show ?thesis
  proof (cases "decode_range r")
    case None
    with JStr show ?thesis by (simp add: merge_one_def mergeCells_def assms)
  next
    case (Some d)
    have "conflicts s d = conflicts s' d" using assms by (rule conflicts_cong)
    with JStr Some show ?thesis by (simp add: merge_one_def mergeCells_def assms)
  qed
qed (simp_all add: merge_one_def assms)

lemma merges_apply_merges_cong:
  "merges s = merges s' \<Longrightarrow> merges (apply_merges s ranges) = merges (apply_merges s' ranges)"
proof (induction ranges arbitrary: s s')
  case Nil
  then show ?case by simp
next
  case (Cons rng ranges)
  from Cons.prems have "merges (merge_one s rng) = merges (merge_one s' rng)"
    by (rule merges_merge_one_cong)
  then have "merges (apply_merges (merge_one s rng) ranges)
               = merges (apply_merges (merge_one s' rng) ranges)"
    by (rule Cons.IH)
  then show ?case by simp
qed

lemma merges_clone_of_fresh:
  "merges (clone_of formSheet i x)
     = merges (apply_merges (new_sheet (sheet_name i)) (getMergeRanges formSheet))"
proof -
  have "merges (copy_cells formSheet (new_sheet (sheet_name i)) (cells formSheet))
          = merges (new_sheet (sheet_name i))"
    by simp
  then show ?thesis
    unfolding merges_clone_of by (rule merges_apply_merges_cong)
qed

lemma apply_merges_clone_of:
  "apply_merges (clone_of formSheet i x) (getMergeRanges formSheet) = clone_of formSheet i x"
proof -
  have "merges (clone_of formSheet i x)
          = merges (apply_merges (copy_cells formSheet (new_sheet (sheet_name i)) (cells formSheet))
                      (getMergeRanges formSheet))"
    by (rule merges_clone_of)
  then show ?thesis by (rule apply_merges_again)
qed

text \<open>
  Claim C7. In the merge loop of the Sheet Cloner an entry whose merge throws is passed
  over and the loop goes on as if the entry were not in the list; an entry that is a range
  and overlaps neither a merge of the sheet nor an entry before it in the list is merged,
  whatever the other entries are (the merges of the sheet and the entries that are passed
  to \<^verbatim>\<open>mergeCells\<close> being range addresses, which is where the library is modelled). No run
  of the cloner ends with the error of a merge. In a
  run that returns (it does when the template and its source sheet exist and the names
  leave room), the clone of every record is in the output under its name, its merges are
  those that the merge loop leaves on a fresh worksheet, and the second pass of the loop,
  after the values are written, changes nothing. For a source sheet with merges as a loaded
  worksheet has them, these are the merges of the source sheet: then every merge of the
  second pass throws, and the clone is completed all the same.
\<close>

theorem merge_failures_are_skipped:
  "(mergeCells (apply_merges s pre) r = Inl err
      \<longrightarrow> apply_merges s (pre @ JStr r # post) = apply_merges s (pre @ post))
   \<and> (CHR '':'' \<in> set r' \<and> decode_range r' = Some d \<and> \<not> conflicts s' d
      \<and> (\<forall>q d'. JStr q \<in> set pre' \<and> decode_range q = Some d' \<longrightarrow> \<not> intersects d' d)
      \<and> list_all (\<lambda>m. decode_range m \<noteq> None) (merges s')
      \<and> (\<forall>q. JStr q \<in> set pre' \<and> CHR '':'' \<in> set q \<longrightarrow> decode_range q \<noteq> None)
      \<longrightarrow> r' \<in> set (merges (apply_merges s' (pre' @ JStr r' # post'))))
   \<and> run_error (createCopiesFromTemplateAll e files dataArray outFilename opts) \<noteq> Some MergeError
   \<and> (files (template_path e opts) = Some wb \<and> getWorksheet wb (form_name opts) = Some formSheet
      \<and> names_free wb (length dataArray)
      \<longrightarrow> (\<exists>outPath files' kept clones.
             createCopiesFromTemplateAll e files dataArray outFilename opts = Inr (outPath, files')
             \<and> files' outPath = Some (kept @ clones)
             \<and> length clones = length dataArray
             \<and> (\<forall>i < length dataArray.
                  output_sheet (createCopiesFromTemplateAll e files dataArray outFilename opts)
                    (sheet_name i) = Some (clones ! i)
                  \<and> merges (clones ! i)
                      = merges (apply_merges (new_sheet (sheet_name i)) (getMergeRanges formSheet))
                  \<and> apply_merges (clones ! i) (getMergeRanges formSheet) = clones ! i
                  \<and> (plain_merges formSheet
                       \<longrightarrow> merges (clones ! i) = merges formSheet
                           \<and> (\<forall>m \<in> set (merges formSheet).
                                 mergeCells (clones ! i) m = Inl MergeError)))))"
proof (intro conjI impI)
  assume "mergeCells (apply_merges s pre) r = Inl err"
  then have "merge_one (apply_merges s pre) (JStr r) = apply_merges s pre"
    by (rule merge_one_failed)
  then show "apply_merges s (pre @ JStr r # post) = apply_merges s (pre @ post)"
    by (simp add: apply_merges_append)
next
  assume "CHR '':'' \<in> set r' \<and> decode_range r' = Some d \<and> \<not> conflicts s' d
      \<and> (\<forall>q d'. JStr q \<in> set pre' \<and> decode_range q = Some d' \<longrightarrow> \<not> intersects d' d)
      \<and> list_all (\<lambda>m. decode_range m \<noteq> None) (merges s')
      \<and> (\<forall>q. JStr q \<in> set pre' \<and> CHR '':'' \<in> set q \<longrightarrow> decode_range q \<noteq> None)"
  then show "r' \<in> set (merges (apply_merges s' (pre' @ JStr r' # post')))"
    by (intro applied_when_free) blast+
next
  show "run_error (createCopiesFromTemplateAll e files dataArray outFilename opts) \<noteq> Some MergeError"
  proof
    assume "run_error (createCopiesFromTemplateAll e files dataArray outFilename opts) = Some MergeError"
    from run_error_cases [OF this] show False by auto
  qed
next
  assume a: "files (template_path e opts) = Some wb \<and> getWorksheet wb (form_name opts) = Some formSheet
      \<and> names_free wb (length dataArray)"
  then have t: "files (template_path e opts) = Some wb"
    and f: "getWorksheet wb (form_name opts) = Some formSheet"
    and n: "names_free wb (length dataArray)" by blast+
  let ?run = "createCopiesFromTemplateAll e files dataArray outFilename opts"
  let ?kept = "foldl remove_existing wb (map sheet_name [0 ..< length dataArray])"
  let ?clones = "map (\<lambda>i. clone_of formSheet i (dataArray ! i)) [0 ..< length dataArray]"
  from run_returns [where files = files and dataArray = dataArray and outFilename = outFilename,
      OF t f n]
  obtain outPath files' where run: "?run = Inr (outPath, files')"
    by blast
  from run_shape [where files = files, OF t f run]
  have written: "files' outPath = Some (?kept @ ?clones)" by simp
  have len: "length ?clones = length dataArray" by simp
  have each: "\<forall>i < length dataArray.
                  output_sheet ?run (sheet_name i) = Some (?clones ! i)
                  \<and> merges (?clones ! i)
                      = merges (apply_merges (new_sheet (sheet_name i)) (getMergeRanges formSheet))
                  \<and> apply_merges (?clones ! i) (getMergeRanges formSheet) = ?clones ! i
                  \<and> (plain_merges formSheet
                       \<longrightarrow> merges (?clones ! i) = merges formSheet
                           \<and> (\<forall>m \<in> set (merges formSheet).
                                 mergeCells (?clones ! i) m = Inl MergeError))"
  proof (intro allI impI)
    fix i assume i: "i < length dataArray"
    then have nth: "?clones ! i = clone_of formSheet i (dataArray ! i)" by simp
    have found: "output_sheet ?run (sheet_name i) = Some (clone_of formSheet i (dataArray ! i))"
      using t f run i by (rule output_sheet_clone)
    have plain: "plain_merges formSheet
                   \<longrightarrow> merges (clone_of formSheet i (dataArray ! i)) = merges formSheet
                       \<and> (\<forall>m \<in> set (merges formSheet).
                             mergeCells (clone_of formSheet i (dataArray ! i)) m = Inl MergeError)"
      by (simp add: merges_clone_of_plain mergeCells_clone_of_plain)
    from found plain
    show "output_sheet ?run (sheet_name i) = Some (?clones ! i)
                  \<and> merges (?clones ! i)
                      = merges (apply_merges (new_sheet (sheet_name i)) (getMergeRanges formSheet))
                  \<and> apply_merges (?clones ! i) (getMergeRanges formSheet) = ?clones ! i
                  \<and> (plain_merges formSheet
                       \<longrightarrow> merges (?clones ! i) = merges formSheet
                           \<and> (\<forall>m \<in> set (merges formSheet).
                                 mergeCells (?clones ! i) m = Inl MergeError))"
      unfolding nth by (simp add: merges_clone_of_fresh apply_merges_clone_of)
  qed
  from run written len each
  show "\<exists>outPath files' kept clones.
             ?run = Inr (outPath, files')
             \<and> files' outPath = Some (kept @ clones)
             \<and> length clones = length dataArray
             \<and> (\<forall>i < length dataArray.
                  output_sheet ?run (sheet_name i) = Some (clones ! i)
                  \<and> merges (clones ! i)
                      = merges (apply_merges (new_sheet (sheet_name i)) (getMergeRanges formSheet))
                  \<and> apply_merges (clones ! i) (getMergeRanges formSheet) = clones ! i
                  \<and> (plain_merges formSheet
                       \<longrightarrow> merges (clones ! i) = merges formSheet
                           \<and> (\<forall>m \<in> set (merges formSheet).
                                 mergeCells (clones ! i) m = Inl MergeError)))"
    by (intro exI [of _ outPath] exI [of _ files'] exI [of _ ?kept] exI [of _ ?clones] conjI)
qed

theorem merge_failures_are_skipped_witness:
  "apply_merges \<lparr>name = ''STT-0'', cells = [], merges = []\<rparr>
       ([JStr ''A1:B2''] @ JStr ''B2:C3'' # [JStr ''D1:E1''])
     = apply_merges \<lparr>name = ''STT-0'', cells = [], merges = []\<rparr> ([JStr ''A1:B2''] @ [JStr ''D1:E1''])
   \<and> ''D1:E1'' \<in> set (merges (apply_merges \<lparr>name = ''STT-0'', cells = [], merges = []\<rparr>
                                 ([JStr ''A1:B2'', JStr ''B2:C3''] @ JStr ''D1:E1'' # [])))
   \<and> (\<exists>c. output_sheet
            (createCopiesFromTemplateAll \<lparr>dirname = ''/app'', cwd = ''/home''\<rparr>
               [''/app/template-all.xlsx'' \<mapsto>
                  [\<lparr>name = ''form'',
                     cells = [((1, 1), \<lparr>cvalue = JStr ''Form'', cstyle = JObj []\<rparr>)],
                     merges = [''A1:F1'', ''C6:D6'']\<rparr>]]
               [JObj [(''name'', JStr ''A'')]] None
               \<lparr>opt_templateFile = None, opt_formSheetName = None\<rparr>)
            ''STT-0'' = Some c
          \<and> merges c = [''A1:F1'', ''C6:D6'']
          \<and> mergeCells c ''A1:F1'' = Inl MergeError
          \<and> mergeCells c ''C6:D6'' = Inl MergeError)"
proof -
  let ?s = "\<lparr>name = ''STT-0'', cells = [], merges = []\<rparr>"
  let ?d = "\<lparr>top_row = 1, left_col = 4, bottom_row = 1, right_col = 5\<rparr>"
  let ?e = "\<lparr>dirname = ''/app'', cwd = ''/home''\<rparr>"
  let ?form = "\<lparr>name = ''form'',
                 cells = [((1, 1), \<lparr>cvalue = JStr ''Form'', cstyle = JObj []\<rparr>)],
                 merges = [''A1:F1'', ''C6:D6'']\<rparr>"
  let ?files = "[''/app/template-all.xlsx'' \<mapsto> [?form]]"
  let ?data = "[JObj [(''name'', JStr ''A'')]]"
  let ?opts = "\<lparr>opt_templateFile = None, opt_formSheetName = None\<rparr>"
  let ?run = "createCopiesFromTemplateAll ?e ?files ?data None ?opts"
  have dec: "decode_range ''D1:E1'' = Some ?d"
    "decode_range ''A1:B2'' = Some \<lparr>top_row = 1, left_col = 1, bottom_row = 2, right_col = 2\<rparr>"
    "decode_range ''B2:C3'' = Some \<lparr>top_row = 2, left_col = 2, bottom_row = 3, right_col = 3\<rparr>"
    by (simp_all add: decode_range_def decode_address_def is_upper_def is_digit_def
          row_number_def col_number_def)
  have g1: "mergeCells (apply_merges ?s [JStr ''A1:B2'']) ''B2:C3'' = Inl MergeError"
    by (simp add: merge_one_def mergeCells_def dec conflicts_def intersects_def)
  have h1: "CHR '':'' \<in> set ''D1:E1''" by simp
  have h2: "\<not> conflicts ?s ?d" by (simp add: conflicts_def)
  have h3: "\<forall>q d'. JStr q \<in> set [JStr ''A1:B2'', JStr ''B2:C3''] \<and> decode_range q = Some d'
              \<longrightarrow> \<not> intersects d' ?d"
    by (auto simp add: dec intersects_def)
  have h3a: "list_all (\<lambda>m. decode_range m \<noteq> None) (merges ?s)" by simp
  have h3b: "\<forall>q. JStr q \<in> set [JStr ''A1:B2'', JStr ''B2:C3''] \<and> CHR '':'' \<in> set q
               \<longrightarrow> decode_range q \<noteq> None"
    by (auto simp add: dec)
  have h4: "?files (template_path ?e ?opts) = Some [?form]"
    by (simp add: template_path_def path_join_def opt_or_def)
  have h5: "getWorksheet [?form] (form_name ?opts) = Some ?form"
    by (simp add: form_name_def opt_or_def getWorksheet_def)
  have h6: "names_free [?form] (length ?data)" by code_simp
  have h7: "plain_merges ?form" by code_simp
  have n0: "sheet_name 0 = ''STT-0''" by code_simp
  note inst = merge_failures_are_skipped [where s = ?s and pre = "[JStr ''A1:B2'']"
      and r = "''B2:C3''" and err = MergeError and post = "[JStr ''D1:E1'']"
      and s' = ?s and pre' = "[JStr ''A1:B2'', JStr ''B2:C3'']" and r' = "''D1:E1''" and d = ?d
      and post' = "[]" and files = ?files and e = ?e and opts = ?opts and wb = "[?form]"
      and formSheet = ?form and dataArray = ?data and outFilename = None]
  from inst g1
  have a: "apply_merges ?s ([JStr ''A1:B2''] @ JStr ''B2:C3'' # [JStr ''D1:E1''])
             = apply_merges ?s ([JStr ''A1:B2''] @ [JStr ''D1:E1''])"
    by blast
  from inst h1 dec(1) h2 h3 h3a h3b
  have b: "''D1:E1'' \<in> set (merges (apply_merges ?s
             ([JStr ''A1:B2'', JStr ''B2:C3''] @ JStr ''D1:E1'' # [])))"
    by blast
  from inst h4 h5 h6
  obtain clones where
    c: "\<forall>i < length ?data.
          output_sheet ?run (sheet_name i) = Some (clones ! i)
          \<and> (plain_merges ?form
               \<longrightarrow> merges (clones ! i) = merges ?form
                   \<and> (\<forall>m \<in> set (merges ?form). mergeCells (clones ! i) m = Inl MergeError))"
    by blast
  have "0 < length ?data" by simp
  with c h7 have c0: "output_sheet ?run (sheet_name 0) = Some (clones ! 0)"
    "merges (clones ! 0) = merges ?form"
    "\<forall>m \<in> set (merges ?form). mergeCells (clones ! 0) m = Inl MergeError"
    by blast+
  from c0(1) have c1: "output_sheet ?run ''STT-0'' = Some (clones ! 0)"
    by (simp only: n0)
  from c0(2) have c2: "merges (clones ! 0) = [''A1:F1'', ''C6:D6'']" by simp
  from c0(3) have c3: "mergeCells (clones ! 0) ''A1:F1'' = Inl MergeError"
    and c4: "mergeCells (clones ! 0) ''C6:D6'' = Inl MergeError"
    by simp_all
  from c1 c2 c3 c4
  have "\<exists>c. output_sheet ?run ''STT-0'' = Some c
          \<and> merges c = [''A1:F1'', ''C6:D6'']
          \<and> mergeCells c ''A1:F1'' = Inl MergeError
          \<and> mergeCells c ''C6:D6'' = Inl MergeError"
    by (intro exI [of _ "clones ! 0"] conjI)
  with a b show ?thesis by (intro conjI)
qed


section \<open>The values of a record in its clone\<close>

text \<open>
  Claim C3, as amended. A run returns when the template and its source sheet exist and the
  names leave room. A run that returns has appended one new worksheet for each record; the
  one for the record at index \<open>i\<close> is named \<open>STT-i\<close>, and it is the worksheet that the output
  has under this name. When the six addresses C6, C7, C8, C9, C10 and F6 resolve to six
  different merge masters in that worksheet, then C6 reads the record's name, C7 its year
  (or else its \<open>name2\<close>), C8 its school, C9 its address, C10 its \<open>address2\<close>, each as the empty
  string when null or undefined, and F6 reads the label. The values are written through
  the merge masters, so without that condition a later write replaces an earlier one.
\<close>

theorem clone_holds_record_values:
  assumes "files (template_path e opts) = Some wb"
    and "getWorksheet wb (form_name opts) = Some formSheet"
    and "i < length dataArray"
  shows "(names_free wb (length dataArray) \<longrightarrow>
           (\<exists>outPath files'.
              createCopiesFromTemplateAll e files dataArray outFilename opts = Inr (outPath, files')))
         \<and> (\<forall>outPath files'.
              createCopiesFromTemplateAll e files dataArray outFilename opts = Inr (outPath, files')
              \<longrightarrow> (\<exists>kept clones.
                     files' outPath = Some (kept @ clones)
                     \<and> length clones = length dataArray
                     \<and> name (clones ! i) = ''STT-'' @ String_nat i
                     \<and> output_sheet (createCopiesFromTemplateAll e files dataArray outFilename opts)
                         (''STT-'' @ String_nat i) = Some (clones ! i)
                     \<and> (distinct (map (master_of (clones ! i)) [C6, C7, C8, C9, C10, F6]) \<longrightarrow>
                          read_value (clones ! i) C6
                            = coalesce (get_prop (js_or (dataArray ! i) (JObj [])) ''name'') (JStr '''')
                        \<and> read_value (clones ! i) C7
                            = coalesce (coalesce (get_prop (js_or (dataArray ! i) (JObj [])) ''year'')
                                                 (get_prop (js_or (dataArray ! i) (JObj [])) ''name2''))
                                (JStr '''')
                        \<and> read_value (clones ! i) C8
                            = coalesce (get_prop (js_or (dataArray ! i) (JObj [])) ''school'') (JStr '''')
                        \<and> read_value (clones ! i) C9
                            = coalesce (get_prop (js_or (dataArray ! i) (JObj [])) ''address'') (JStr '''')
                        \<and> read_value (clones ! i) C10
                            = coalesce (get_prop (js_or (dataArray ! i) (JObj [])) ''address2'') (JStr '''')
                        \<and> read_value (clones ! i) F6 = JStr class_label)))"
proof (intro conjI impI allI)
  assume "names_free wb (length dataArray)"
  with assms(1,2)
  show "\<exists>outPath files'.
          createCopiesFromTemplateAll e files dataArray outFilename opts = Inr (outPath, files')"
    by (rule run_returns)
next
  fix outPath files'
  assume run: "createCopiesFromTemplateAll e files dataArray outFilename opts = Inr (outPath, files')"
  let ?run = "createCopiesFromTemplateAll e files dataArray outFilename opts"
  let ?item = "js_or (dataArray ! i) (JObj [])"
  let ?merged = "apply_merges (copy_cells formSheet (new_sheet (sheet_name i)) (cells formSheet))
                   (getMergeRanges formSheet)"
  let ?c = "clone_of formSheet i (dataArray ! i)"
  let ?kept = "foldl remove_existing wb (map sheet_name [0 ..< length dataArray])"
  let ?clones = "map (\<lambda>i. clone_of formSheet i (dataArray ! i)) [0 ..< length dataArray]"
  from run_shape [where files = files, OF assms(1,2) run]
  have out: "files' outPath = Some (?kept @ ?clones)" by simp
  have len: "length ?clones = length dataArray" by simp
  from assms(3) have nth: "?clones ! i = ?c" by simp
  have c: "?c = write_item ?merged ?item" by (simp add: clone_of_def)
  have nm: "name (?clones ! i) = ''STT-'' @ String_nat i"
    by (simp add: nth sheet_name_def)
  have "output_sheet ?run (sheet_name i) = Some ?c"
    using assms(1,2) run assms(3) by (rule output_sheet_clone)
  then have found: "output_sheet ?run (''STT-'' @ String_nat i) = Some (?clones ! i)"
    by (simp only: nth sheet_name_def)
  have vals: "distinct (map (master_of (?clones ! i)) [C6, C7, C8, C9, C10, F6]) \<longrightarrow>
                read_value (?clones ! i) C6 = coalesce (get_prop ?item ''name'') (JStr '''')
              \<and> read_value (?clones ! i) C7 =
                  coalesce (coalesce (get_prop ?item ''year'') (get_prop ?item ''name2'')) (JStr '''')
              \<and> read_value (?clones ! i) C8 = coalesce (get_prop ?item ''school'') (JStr '''')
              \<and> read_value (?clones ! i) C9 = coalesce (get_prop ?item ''address'') (JStr '''')
              \<and> read_value (?clones ! i) C10 = coalesce (get_prop ?item ''address2'') (JStr '''')
              \<and> read_value (?clones ! i) F6 = JStr class_label"
  proof
    assume "distinct (map (master_of (?clones ! i)) [C6, C7, C8, C9, C10, F6])"
    moreover have "master_of (write_item ?merged ?item) = master_of ?merged" by (rule ext) simp
    ultimately have d: "distinct (map (master_of ?merged) [C6, C7, C8, C9, C10, F6])"
      by (simp only: nth c)
    from read_write_item [OF d, of ?item]
    show "read_value (?clones ! i) C6 = coalesce (get_prop ?item ''name'') (JStr '''')
              \<and> read_value (?clones ! i) C7 =
                  coalesce (coalesce (get_prop ?item ''year'') (get_prop ?item ''name2'')) (JStr '''')
              \<and> read_value (?clones ! i) C8 = coalesce (get_prop ?item ''school'') (JStr '''')
              \<and> read_value (?clones ! i) C9 = coalesce (get_prop ?item ''address'') (JStr '''')
              \<and> read_value (?clones ! i) C10 = coalesce (get_prop ?item ''address2'') (JStr '''')
              \<and> read_value (?clones ! i) F6 = JStr class_label"
      by (simp only: nth c)
  qed
  from out len nm found vals
  show "\<exists>kept clones.
          files' outPath = Some (kept @ clones)
          \<and> length clones = length dataArray
          \<and> name (clones ! i) = ''STT-'' @ String_nat i
          \<and> output_sheet ?run (''STT-'' @ String_nat i) = Some (clones ! i)
          \<and> (distinct (map (master_of (clones ! i)) [C6, C7, C8, C9, C10, F6]) \<longrightarrow>
                read_value (clones ! i) C6 = coalesce (get_prop ?item ''name'') (JStr '''')
              \<and> read_value (clones ! i) C7 =
                  coalesce (coalesce (get_prop ?item ''year'') (get_prop ?item ''name2'')) (JStr '''')
              \<and> read_value (clones ! i) C8 = coalesce (get_prop ?item ''school'') (JStr '''')
              \<and> read_value (clones ! i) C9 = coalesce (get_prop ?item ''address'') (JStr '''')
              \<and> read_value (clones ! i) C10 = coalesce (get_prop ?item ''address2'') (JStr '''')
              \<and> read_value (clones ! i) F6 = JStr class_label)"
    by (intro exI [of _ ?kept] exI [of _ ?clones] conjI)
qed

theorem clone_holds_record_values_witness:
  "output_value
     (createCopiesFromTemplateAll \<lparr>dirname = ''/app'', cwd = ''/home''\<rparr>
        [''/app/template-all.xlsx'' \<mapsto>
           [\<lparr>name = ''form'',
              cells = [((1, 1), \<lparr>cvalue = JStr ''Form'', cstyle = JObj [(''font'', JStr ''bold'')]\<rparr>),
                       ((6, 3), \<lparr>cvalue = JStr ''?'', cstyle = JObj []\<rparr>)],
              merges = [''A1:F1'']\<rparr>]]
        [JObj [(''name'', JStr ''A'')], JObj [(''name'', JStr ''B'')]] None
        \<lparr>opt_templateFile = None, opt_formSheetName = None\<rparr>)
     ''STT-1'' C6 = Some (JStr ''B'')
   \<and> output_value
     (createCopiesFromTemplateAll \<lparr>dirname = ''/app'', cwd = ''/home''\<rparr>
        [''/app/template-all.xlsx'' \<mapsto>
           [\<lparr>name = ''form'',
              cells = [((1, 1), \<lparr>cvalue = JStr ''Form'', cstyle = JObj [(''font'', JStr ''bold'')]\<rparr>),
                       ((6, 3), \<lparr>cvalue = JStr ''?'', cstyle = JObj []\<rparr>)],
              merges = [''A1:F1'']\<rparr>]]
        [JObj [(''name'', JStr ''A'')], JObj [(''name'', JStr ''B'')]] None
        \<lparr>opt_templateFile = None, opt_formSheetName = None\<rparr>)
     ''STT-1'' F6 = Some (JStr class_label)"
proof -
  let ?e = "\<lparr>dirname = ''/app'', cwd = ''/home''\<rparr>"
  let ?form = "\<lparr>name = ''form'',
              cells = [((1, 1), \<lparr>cvalue = JStr ''Form'', cstyle = JObj [(''font'', JStr ''bold'')]\<rparr>),
                       ((6, 3), \<lparr>cvalue = JStr ''?'', cstyle = JObj []\<rparr>)],
              merges = [''A1:F1'']\<rparr>"
  let ?files = "[''/app/template-all.xlsx'' \<mapsto> [?form]]"
  let ?data = "[JObj [(''name'', JStr ''A'')], JObj [(''name'', JStr ''B'')]]"
  let ?opts = "\<lparr>opt_templateFile = None, opt_formSheetName = None\<rparr>"
  let ?run = "createCopiesFromTemplateAll ?e ?files ?data None ?opts"
  have h1: "?files (template_path ?e ?opts) = Some [?form]"
    by (simp add: template_path_def path_join_def opt_or_def)
  have h2: "getWorksheet [?form] (form_name ?opts) = Some ?form"
    by (simp add: form_name_def opt_or_def getWorksheet_def)
  have h3: "names_free [?form] (length ?data)" by code_simp
  have h4: "1 < length ?data" by simp
  have n1: "''STT-'' @ String_nat 1 = ''STT-1''" by code_simp
  note inst = clone_holds_record_values [where files = ?files and outFilename = None,
      OF h1 h2 h4, unfolded n1]
  from inst h3 obtain outPath files' where run: "?run = Inr (outPath, files')"
    by blast
  with inst
  obtain c where c: "output_sheet ?run ''STT-1'' = Some c"
    and v: "distinct (map (master_of c) [C6, C7, C8, C9, C10, F6]) \<longrightarrow>
              read_value c C6 = coalesce (get_prop (js_or (?data ! 1) (JObj [])) ''name'') (JStr '''')
            \<and> read_value c F6 = JStr class_label"
    by blast
  have "map_option merges (output_sheet ?run ''STT-1'') = Some [''A1:F1'']"
    by code_simp
  with c have m: "merges c = [''A1:F1'']" by simp
  have dec: "decode_range ''A1:F1'' = Some \<lparr>top_row = 1, left_col = 1, bottom_row = 1, right_col = 6\<rparr>"
    by (simp add: decode_range_def decode_address_def is_upper_def is_digit_def
          row_number_def col_number_def)
  have "distinct (map (master_of c) [C6, C7, C8, C9, C10, F6])"
    by (simp add: master_of_def merge_of_def m in_merge_def dec contains_def
          C6_def C7_def C8_def C9_def C10_def F6_def)
  with v have "read_value c C6 = JStr ''B''" "read_value c F6 = JStr class_label"
    by (simp_all add: js_or_def coalesce_def)
  with c show ?thesis by (simp add: output_value_def)
qed

text \<open>
  The claim as it was stated fails on a template whose source sheet merges C6 with C7: the
  year, written to C7, lands in the master C6 and replaces the name.
\<close>

theorem clone_holds_record_values_counterexample:
  "output_value
     (createCopiesFromTemplateAll \<lparr>dirname = ''/app'', cwd = ''/home''\<rparr>
        [''/app/template-all.xlsx'' \<mapsto> [\<lparr>name = ''form'', cells = [], merges = [''C6:C7'']\<rparr>]]
        [JObj [(''name'', JStr ''A'')], JObj [(''name'', JStr ''B'')]] None
        \<lparr>opt_templateFile = None, opt_formSheetName = None\<rparr>)
     ''STT-0'' C6 \<noteq> Some (JStr ''A'')"
  by code_simp


section \<open>A record that is null or undefined\<close>

text \<open>
  Claim C10, as amended. Reading a field of an element that is null or undefined throws,
  so the six writes cannot be done on the element itself; the loop does them on the empty
  record that it puts in its place. When the template and its source sheet exist and the
  names leave room, a run on a sequence whose element at index \<open>i\<close> is null or undefined
  returns. Among the new worksheets, one for each element, the one for index \<open>i\<close> is named
  \<open>STT-i\<close>, it is the worksheet that the output has under this name, and it is the copy of
  the source sheet, merges applied, on which the empty string was written to C6, C7, C8, C9
  and C10 and the label to F6, each through \<open>setCellValueKeepingMerge\<close>.
\<close>

theorem null_record_is_empty_record:
  assumes "files (template_path e opts) = Some wb"
    and "getWorksheet wb (form_name opts) = Some formSheet"
    and "names_free wb (length dataArray)"
    and "i < length dataArray"
    and "nullish (dataArray ! i)"
  shows "\<exists>outPath files' kept clones.
           createCopiesFromTemplateAll e files dataArray outFilename opts = Inr (outPath, files')
           \<and> files' outPath = Some (kept @ clones)
           \<and> length clones = length dataArray
           \<and> name (clones ! i) = ''STT-'' @ String_nat i
           \<and> output_sheet (createCopiesFromTemplateAll e files dataArray outFilename opts)
                (''STT-'' @ String_nat i) = Some (clones ! i)
           \<and> (\<forall>s. fill_item s (dataArray ! i) = Inl TypeError)
           \<and> fill_item
                (apply_merges
                   (copy_cells formSheet (new_sheet (''STT-'' @ String_nat i)) (cells formSheet))
                   (getMergeRanges formSheet))
                (js_or (dataArray ! i) (JObj [])) = Inr (clones ! i)
           \<and> clones ! i =
               setCellValueKeepingMerge
                 (setCellValueKeepingMerge
                   (setCellValueKeepingMerge
                     (setCellValueKeepingMerge
                       (setCellValueKeepingMerge
                         (setCellValueKeepingMerge
                           (apply_merges
                             (copy_cells formSheet (new_sheet (''STT-'' @ String_nat i))
                                (cells formSheet))
                             (getMergeRanges formSheet))
                           C6 (JStr ''''))
                         C7 (JStr ''''))
                       C8 (JStr ''''))
                     C9 (JStr ''''))
                   C10 (JStr ''''))
                 F6 (JStr class_label)"
proof -
  let ?run = "createCopiesFromTemplateAll e files dataArray outFilename opts"
  let ?kept = "foldl remove_existing wb (map sheet_name [0 ..< length dataArray])"
  let ?clones = "map (\<lambda>i. clone_of formSheet i (dataArray ! i)) [0 ..< length dataArray]"
  let ?c = "clone_of formSheet i (dataArray ! i)"
  let ?merged = "apply_merges
                   (copy_cells formSheet (new_sheet (''STT-'' @ String_nat i)) (cells formSheet))
                   (getMergeRanges formSheet)"
  from assms(5) have item: "js_or (dataArray ! i) (JObj []) = JObj []"
    by (cases "dataArray ! i") (simp_all add: js_or_def)
  from run_returns [where files = files and dataArray = dataArray and outFilename = outFilename,
      OF assms(1-3)]
  obtain outPath files' where run: "?run = Inr (outPath, files')"
    by blast
  from run_shape [where files = files, OF assms(1,2) run]
  have out: "files' outPath = Some (?kept @ ?clones)" by simp
  have len: "length ?clones = length dataArray" by simp
  from assms(4) have nth: "?clones ! i = ?c" by simp
  have nm: "name (?clones ! i) = ''STT-'' @ String_nat i"
    by (simp add: nth sheet_name_def)
  have "output_sheet ?run (sheet_name i) = Some ?c"
    using assms(1,2) run assms(4) by (rule output_sheet_clone)
  then have found: "output_sheet ?run (''STT-'' @ String_nat i) = Some (?clones ! i)"
    by (simp only: nth sheet_name_def)
  from assms(5) have throws: "\<forall>s. fill_item s (dataArray ! i) = Inl TypeError"
    by (simp add: fill_item_def)
  have filled: "fill_item ?merged (js_or (dataArray ! i) (JObj [])) = Inr (?clones ! i)"
    unfolding nth by (simp add: fill_item_def js_or_not_nullish clone_of_def sheet_name_def)
  have writes: "?clones ! i =
               setCellValueKeepingMerge
                 (setCellValueKeepingMerge
                   (setCellValueKeepingMerge
                     (setCellValueKeepingMerge
                       (setCellValueKeepingMerge
                         (setCellValueKeepingMerge ?merged C6 (JStr ''''))
                         C7 (JStr ''''))
                       C8 (JStr ''''))
                     C9 (JStr ''''))
                   C10 (JStr ''''))
                 F6 (JStr class_label)"
    unfolding nth by (simp add: clone_of_def item sheet_name_def write_item_def Let_def coalesce_def)
  from run out len nm found throws filled writes show ?thesis
    by (intro exI [of _ outPath] exI [of _ files'] exI [of _ ?kept] exI [of _ ?clones] conjI)
qed

theorem null_record_is_empty_record_witness:
  "output_value
     (createCopiesFromTemplateAll \<lparr>dirname = ''/app'', cwd = ''/home''\<rparr>
        [''/app/template-all.xlsx'' \<mapsto>
           [\<lparr>name = ''form'',
              cells = [((6, 3), \<lparr>cvalue = JStr ''?'', cstyle = JObj []\<rparr>)],
              merges = [''C6:D6'']\<rparr>]]
        [JObj [(''name'', JStr ''A'')], JNull] None
        \<lparr>opt_templateFile = None, opt_formSheetName = None\<rparr>)
     ''STT-1'' C6 = Some (JStr '''')"
proof -
  let ?e = "\<lparr>dirname = ''/app'', cwd = ''/home''\<rparr>"
  let ?form = "\<lparr>name = ''form'',
              cells = [((6, 3), \<lparr>cvalue = JStr ''?'', cstyle = JObj []\<rparr>)],
              merges = [''C6:D6'']\<rparr>"
  let ?files = "[''/app/template-all.xlsx'' \<mapsto> [?form]]"
  let ?data = "[JObj [(''name'', JStr ''A'')], JNull]"
  let ?opts = "\<lparr>opt_templateFile = None, opt_formSheetName = None\<rparr>"
  let ?written = "setCellValueKeepingMerge
                      (setCellValueKeepingMerge
                        (setCellValueKeepingMerge
                          (setCellValueKeepingMerge
                            (setCellValueKeepingMerge
                              (setCellValueKeepingMerge
                                (apply_merges
                                  (copy_cells ?form (new_sheet ''STT-1'') (cells ?form))
                                  (getMergeRanges ?form))
                                C6 (JStr ''''))
                              C7 (JStr ''''))
                            C8 (JStr ''''))
                          C9 (JStr ''''))
                        C10 (JStr ''''))
                      F6 (JStr class_label)"
  have h1: "?files (template_path ?e ?opts) = Some [?form]"
    by (simp add: template_path_def path_join_def opt_or_def)
  have h2: "getWorksheet [?form] (form_name ?opts) = Some ?form"
    by (simp add: form_name_def opt_or_def getWorksheet_def)
  have h3: "names_free [?form] (length ?data)" by code_simp
  have h4: "1 < length ?data" by simp
  have h5: "nullish (?data ! 1)" by simp
  have n1: "''STT-'' @ String_nat 1 = ''STT-1''" by code_simp
  from null_record_is_empty_record [where files = ?files and outFilename = None,
      OF h1 h2 h3 h4 h5, unfolded n1]
  obtain c where "output_sheet (createCopiesFromTemplateAll ?e ?files ?data None ?opts) ''STT-1''
                    = Some c"
    and "c = ?written"
    by blast
  then have "output_value (createCopiesFromTemplateAll ?e ?files ?data None ?opts) ''STT-1'' C6
          = Some (read_value ?written C6)"
    by (simp only: output_value_def option.case)
  also have "\<dots> = Some (JStr '''')"
    by code_simp
  finally show ?thesis .
qed

text \<open>
  The claim as it was stated fails on a template that holds, beside the source sheet, a
  worksheet named \<open>stt-1\<close>: the run on a sequence whose element at index 1 is null throws
  when it adds the worksheet \<open>STT-1\<close>, and writes nothing.
\<close>

theorem null_record_is_empty_record_counterexample:
  "run_error
     (createCopiesFromTemplateAll \<lparr>dirname = ''/app'', cwd = ''/home''\<rparr>
        [''/app/template-all.xlsx'' \<mapsto>
           [\<lparr>name = ''form'', cells = [], merges = []\<rparr>,
            \<lparr>name = ''stt-1'', cells = [], merges = []\<rparr>]]
        [JObj [(''name'', JStr ''A'')], JNull] None
        \<lparr>opt_templateFile = None, opt_formSheetName = None\<rparr>)
   = Some (NameExists ''STT-1'')"
  by code_simp


section \<open>The result of the filler\<close>

lemma getWorksheet_replaceWorksheet:
  assumes "getWorksheet wb n = Some s" and "name s' = n"
  shows "getWorksheet (replaceWorksheet wb n s') n = Some s'"
  using assms by (induction wb) (auto simp add: getWorksheet_Cons getWorksheet_def split: if_splits)

lemma name_write_entry [simp]: "name (write_entry s entry) = name s"
  by (simp add: write_entry_def Let_def)

lemma merges_write_entry [simp]: "merges (write_entry s entry) = merges s"
  by (simp add: write_entry_def Let_def)

lemma master_of_write_entry [simp]: "master_of (write_entry s entry) a = master_of s a"
  by (rule master_of_cong) simp

lemma getCell_write_entry_other:
  assumes "b \<notin> set (map (master_of s) [C1, C2, C3, C4, C5, C6])"
  shows "getCell (write_entry s entry) b = getCell s b"
  using assms by (simp add: write_entry_def Let_def getCell_setCell)

lemma read_write_entry:
  assumes "distinct (map (master_of s) [C1, C2, C3, C4, C5, C6])"
  shows "read_value (write_entry s entry) C1 = coalesce (get_prop entry ''name'') (JStr '''')"
    and "read_value (write_entry s entry) C2 = coalesce (get_prop entry ''year'') (JStr '''')"
    and "read_value (write_entry s entry) C3 = coalesce (get_prop entry ''school'') (JStr '''')"
    and "read_value (write_entry s entry) C4 = coalesce (get_prop entry ''address'') (JStr '''')"
    and "read_value (write_entry s entry) C5 = coalesce (get_prop entry ''address2'') (JStr '''')"
    and "read_value (write_entry s entry) C6 = coalesce (get_prop entry ''classcode'') (JStr '''')"
  using assms by (simp_all add: write_entry_def Let_def read_value_setCell)

lemma fill_result:
  assumes "files (template3_path e) = Some wb"
    and "getWorksheet wb ''data'' = Some sheet"
    and "\<not> nullish entry"
  shows "fillDataToTemplate e files entry outFilename =
           Inr (path_join (path_join (dirname e) ''out'') outFilename,
                files(path_join (path_join (dirname e) ''out'') outFilename
                      \<mapsto> replaceWorksheet wb ''data'' (write_entry sheet entry)))"
  using assms by (simp add: fillDataToTemplate_def template3_path_def Let_def)

lemma fill_output_sheet:
  assumes "files (template3_path e) = Some wb"
    and "getWorksheet wb ''data'' = Some sheet"
    and "\<not> nullish entry"
  shows "output_sheet (fillDataToTemplate e files entry outFilename) ''data''
           = Some (write_entry sheet entry)"
proof -
  from assms(2) have "name sheet = ''data''" by (simp add: getWorksheet_SomeD)
  then have "name (write_entry sheet entry) = ''data''" by simp
  with assms(2) have "getWorksheet (replaceWorksheet wb ''data'' (write_entry sheet entry)) ''data''
                        = Some (write_entry sheet entry)"
    by (rule getWorksheet_replaceWorksheet)
  moreover have "fillDataToTemplate e files entry outFilename =
           Inr (path_join (path_join (dirname e) ''out'') outFilename,
                files(path_join (path_join (dirname e) ''out'') outFilename
                      \<mapsto> replaceWorksheet wb ''data'' (write_entry sheet entry)))"
    using assms by (rule fill_result)
  ultimately show ?thesis
    by (simp add: output_sheet_def)
qed

section \<open>The six cells of the filler\<close>

text \<open>
  Claim C5, as amended. For a record (an entry that is not null or undefined) and a template
  with a worksheet \<open>data\<close>, the filler returns the path of the output file in the \<open>out\<close>
  directory; in the worksheet \<open>data\<close> of the output the merges are those of the template and
  no cell has changed other than the merge masters of C1 to C6. When C1 to C6 resolve to
  six different merge masters, the six cells read the record's name, year, school, address,
  \<open>address2\<close> and \<open>classcode\<close>, in this order, each as the empty string when it is null or
  undefined.
\<close>

theorem filler_sets_six_cells:
  assumes "files (template3_path e) = Some wb"
    and "getWorksheet wb ''data'' = Some sheet"
    and "\<not> nullish entry"
  shows "\<exists>files' s'.
           fillDataToTemplate e files entry outFilename
             = Inr (path_join (path_join (dirname e) ''out'') outFilename, files')
           \<and> output_sheet (fillDataToTemplate e files entry outFilename) ''data'' = Some s'
           \<and> merges s' = merges sheet
           \<and> (\<forall>b. b \<notin> set (map (master_of sheet) [C1, C2, C3, C4, C5, C6]) \<longrightarrow>
                  getCell s' b = getCell sheet b)
           \<and> (distinct (map (master_of sheet) [C1, C2, C3, C4, C5, C6]) \<longrightarrow>
                  read_value s' C1 = coalesce (get_prop entry ''name'') (JStr '''')
                \<and> read_value s' C2 = coalesce (get_prop entry ''year'') (JStr '''')
                \<and> read_value s' C3 = coalesce (get_prop entry ''school'') (JStr '''')
                \<and> read_value s' C4 = coalesce (get_prop entry ''address'') (JStr '''')
                \<and> read_value s' C5 = coalesce (get_prop entry ''address2'') (JStr '''')
                \<and> read_value s' C6 = coalesce (get_prop entry ''classcode'') (JStr ''''))"
proof -
  let ?s' = "write_entry sheet entry"
  let ?out = "path_join (path_join (dirname e) ''out'') outFilename"
  have run: "fillDataToTemplate e files entry outFilename
               = Inr (?out, files(?out \<mapsto> replaceWorksheet wb ''data'' ?s'))"
    using assms by (rule fill_result)
  have sheet: "output_sheet (fillDataToTemplate e files entry outFilename) ''data'' = Some ?s'"
    using assms by (rule fill_output_sheet)
  have m: "merges ?s' = merges sheet" by simp
  have frame: "\<forall>b. b \<notin> set (map (master_of sheet) [C1, C2, C3, C4, C5, C6]) \<longrightarrow>
                 getCell ?s' b = getCell sheet b"
    by (blast intro: getCell_write_entry_other)
  have vals: "distinct (map (master_of sheet) [C1, C2, C3, C4, C5, C6]) \<longrightarrow>
                  read_value ?s' C1 = coalesce (get_prop entry ''name'') (JStr '''')
                \<and> read_value ?s' C2 = coalesce (get_prop entry ''year'') (JStr '''')
                \<and> read_value ?s' C3 = coalesce (get_prop entry ''school'') (JStr '''')
                \<and> read_value ?s' C4 = coalesce (get_prop entry ''address'') (JStr '''')
                \<and> read_value ?s' C5 = coalesce (get_prop entry ''address2'') (JStr '''')
                \<and> read_value ?s' C6 = coalesce (get_prop entry ''classcode'') (JStr '''')"
    using read_write_entry [of sheet entry] by blast
  from run sheet m frame vals show ?thesis
    by (intro exI [of _ "files(?out \<mapsto> replaceWorksheet wb ''data'' ?s')"] exI [of _ ?s'] conjI)
qed

theorem filler_sets_six_cells_witness:
  "output_value
     (fillDataToTemplate \<lparr>dirname = ''/app'', cwd = ''/home''\<rparr>
        [''/app/template3.xlsx'' \<mapsto>
           [\<lparr>name = ''data'',
              cells = [((1, 1), \<lparr>cvalue = JStr ''Name'', cstyle = JObj []\<rparr>)],
              merges = [''A1:B1'']\<rparr>]]
        (JObj [(''name'', JStr ''A''), (''year'', JNum 2001), (''address2'', JNull),
               (''classcode'', JNum 18)])
        ''filled.xlsx'')
     ''data'' C1 = Some (JStr ''A'')
   \<and> output_value
     (fillDataToTemplate \<lparr>dirname = ''/app'', cwd = ''/home''\<rparr>
        [''/app/template3.xlsx'' \<mapsto>
           [\<lparr>name = ''data'',
              cells = [((1, 1), \<lparr>cvalue = JStr ''Name'', cstyle = JObj []\<rparr>)],
              merges = [''A1:B1'']\<rparr>]]
        (JObj [(''name'', JStr ''A''), (''year'', JNum 2001), (''address2'', JNull),
               (''classcode'', JNum 18)])
        ''filled.xlsx'')
     ''data'' C5 = Some (JStr '''')"
proof -
  let ?e = "\<lparr>dirname = ''/app'', cwd = ''/home''\<rparr>"
  let ?sheet = "\<lparr>name = ''data'',
              cells = [((1, 1), \<lparr>cvalue = JStr ''Name'', cstyle = JObj []\<rparr>)],
              merges = [''A1:B1'']\<rparr>"
  let ?files = "[''/app/template3.xlsx'' \<mapsto> [?sheet]]"
  let ?entry = "JObj [(''name'', JStr ''A''), (''year'', JNum 2001), (''address2'', JNull),
               (''classcode'', JNum 18)]"
  let ?run = "fillDataToTemplate ?e ?files ?entry ''filled.xlsx''"
  have h1: "?files (template3_path ?e) = Some [?sheet]"
    by (simp add: template3_path_def path_join_def)
  have h2: "getWorksheet [?sheet] ''data'' = Some ?sheet"
    by (simp add: getWorksheet_def)
  have h3: "\<not> nullish ?entry" by simp
  have dec: "decode_range ''A1:B1'' = Some \<lparr>top_row = 1, left_col = 1, bottom_row = 1, right_col = 2\<rparr>"
    by (simp add: decode_range_def decode_address_def is_upper_def is_digit_def
          row_number_def col_number_def)
  have d: "distinct (map (master_of ?sheet) [C1, C2, C3, C4, C5, C6])"
    by (simp add: master_of_def merge_of_def in_merge_def dec contains_def
          C1_def C2_def C3_def C4_def C5_def C6_def)
  from filler_sets_six_cells [where files = ?files and outFilename = "''filled.xlsx''", OF h1 h2 h3] d
  obtain s' where s: "output_sheet ?run ''data'' = Some s'"
    and v: "read_value s' C1 = coalesce (get_prop ?entry ''name'') (JStr '''')"
           "read_value s' C5 = coalesce (get_prop ?entry ''address2'') (JStr '''')"
    by blast
  from v have "read_value s' C1 = JStr ''A''" "read_value s' C5 = JStr ''''"
    by (simp_all add: coalesce_def)
  with s show ?thesis by (simp add: output_value_def)
qed

text \<open>
  The claim as it was stated fails on a template whose worksheet \<open>data\<close> merges C1 with C2:
  the year, written to C2, lands in the master C1 and replaces the name.
\<close>

theorem filler_sets_six_cells_counterexample:
  "output_value
     (fillDataToTemplate \<lparr>dirname = ''/app'', cwd = ''/home''\<rparr>
        [''/app/template3.xlsx'' \<mapsto> [\<lparr>name = ''data'', cells = [], merges = [''C1:C2'']\<rparr>]]
        (JObj [(''name'', JStr ''A''), (''year'', JNum 2001)])
        ''filled.xlsx'')
     ''data'' C1 \<noteq> Some (JStr ''A'')"
  by code_simp


section \<open>The earlier variant of the filler\<close>

lemma write_entry_earlier_eq: "write_entry_earlier s entry = write_entry s entry"
  by (simp add: write_entry_def write_entry_earlier_def assign_value_setCell)

text \<open>
  Claim C9. The earlier variant of \<open>fillDataToTemplate\<close> assigns to the addressed cells
  through their setter, the current one through the helper. The setter of a merged member
  hands the value to the master, which is the cell that the helper assigns to, so for
  every template, entry and output file name the two variants return the same result: the
  same error, or the same output path and the same worksheets written.
\<close>

theorem variants_agree:
  "fillDataToTemplate_earlier e files entry outFilename
     = fillDataToTemplate e files entry outFilename"
  unfolding fillDataToTemplate_def fillDataToTemplate_earlier_def write_entry_earlier_eq
  by (rule refl)

text \<open>On a template whose worksheet \<open>data\<close> merges C1 with C2, both read the year at C1.\<close>

theorem variants_agree_witness:
  "output_value
     (fillDataToTemplate_earlier \<lparr>dirname = ''/app'', cwd = ''/home''\<rparr>
        [''/app/template3.xlsx'' \<mapsto> [\<lparr>name = ''data'', cells = [], merges = [''C1:C2'']\<rparr>]]
        (JObj [(''name'', JStr ''A''), (''year'', JNum 2001)]) ''filled.xlsx'')
     ''data'' C1 = Some (JNum 2001)
   \<and> output_value
     (fillDataToTemplate \<lparr>dirname = ''/app'', cwd = ''/home''\<rparr>
        [''/app/template3.xlsx'' \<mapsto> [\<lparr>name = ''data'', cells = [], merges = [''C1:C2'']\<rparr>]]
        (JObj [(''name'', JStr ''A''), (''year'', JNum 2001)]) ''filled.xlsx'')
     ''data'' C1 = Some (JNum 2001)"
proof -
  let ?e = "\<lparr>dirname = ''/app'', cwd = ''/home''\<rparr>"
  let ?files = "[''/app/template3.xlsx'' \<mapsto> [\<lparr>name = ''data'', cells = [], merges = [''C1:C2'']\<rparr>]]"
  let ?entry = "JObj [(''name'', JStr ''A''), (''year'', JNum 2001)]"
  have cur: "output_value (fillDataToTemplate ?e ?files ?entry ''filled.xlsx'') ''data'' C1
               = Some (JNum 2001)"
    by code_simp
  from variants_agree [of ?e ?files ?entry "''filled.xlsx''"]
  have "output_value (fillDataToTemplate_earlier ?e ?files ?entry ''filled.xlsx'') ''data'' C1
          = output_value (fillDataToTemplate ?e ?files ?entry ''filled.xlsx'') ''data'' C1"
    by (simp only:)
  with cur show ?thesis by simp
qed


end
